theory Spec2Isabelle
  imports Main "HOL-Library.Sublist"
begin

section \<open>Review records and the rating histogram\<close>

text \<open>
  A review is one record of the search service's \<open>reviews\<close> array. The program reads two
  keys of it, \<open>"text"\<close> and \<open>"rating"\<close>; a key that is absent is \<open>None\<close>. Following the
  data model, a text is a string and a rating is an integer (Python's unbounded \<open>int\<close>,
  so any integer, not only 1 to 5).
\<close>

record review =
  review_text :: "string option"
  review_rating :: "int option"

text \<open>
  The first loop of \<open>analyze_reviews_with_openai\<close>:
  \<^verbatim>\<open>
  for review in reviews:
      if "text" in review and review["text"]:
          review_texts.append(review["text"])
      if "rating" in review:
          ratings.append(review["rating"])
  \<close>
\<close>

definition collect_step :: "string list \<times> int list \<Rightarrow> review \<Rightarrow> string list \<times> int list" where
  "collect_step acc review =
     (case acc of (review_texts, ratings) \<Rightarrow>
        ((case review_text review of
            Some t \<Rightarrow> if t \<noteq> [] then review_texts @ [t] else review_texts
          | None \<Rightarrow> review_texts),
         (case review_rating review of
            Some r \<Rightarrow> ratings @ [r]
          | None \<Rightarrow> ratings)))"

definition collect :: "review list \<Rightarrow> string list \<times> int list" where
  "collect reviews = foldl collect_step ([], []) reviews"

text \<open>
  The histogram loop:
  \<^verbatim>\<open>
  rating_counts = {1: 0, 2: 0, 3: 0, 4: 0, 5: 0}
  for rating in ratings:
      if rating in rating_counts:
          rating_counts[rating] += 1
  \<close>
  The dictionary is a map from integers to counts; a rating that is not a key leaves it
  unchanged.
\<close>

definition rating_counts_init :: "int \<rightharpoonup> nat" where
  "rating_counts_init = [1 \<mapsto> 0, 2 \<mapsto> 0, 3 \<mapsto> 0, 4 \<mapsto> 0, 5 \<mapsto> 0]"

definition count_rating :: "(int \<rightharpoonup> nat) \<Rightarrow> int \<Rightarrow> (int \<rightharpoonup> nat)" where
  "count_rating rating_counts rating =
     (case rating_counts rating of
        None \<Rightarrow> rating_counts
      | Some n \<Rightarrow> rating_counts(rating \<mapsto> n + 1))"

definition count_ratings :: "int list \<Rightarrow> (int \<rightharpoonup> nat)" where
  "count_ratings ratings = foldl count_rating rating_counts_init ratings"

text \<open>The number of occurrences of a value in a list, for stating what the loop computes.\<close>

definition occurrences :: "int \<Rightarrow> int list \<Rightarrow> nat" where
  "occurrences k ratings = length (filter (\<lambda>r. r = k) ratings)"

definition in_range :: "int \<Rightarrow> bool" where
  "in_range r \<longleftrightarrow> r \<in> {1, 2, 3, 4, 5}"



section \<open>Strings and the cleaning of the reply\<close>

text \<open>
  Texts (review texts, the prompt, the reply of the text-generation service) are lists of
  characters; a character is a code point below 256. \<open>isspace\<close> is the set of
  characters \<open>str.strip()\<close> removes, restricted to that alphabet: the code points 9 to 13,
  28 to 32, 133 and 160.
\<close>

definition isspace :: "char \<Rightarrow> bool" where
  "isspace c \<longleftrightarrow>
     (let n = (of_char c :: nat)
      in (9 \<le> n \<and> n \<le> 13) \<or> (28 \<le> n \<and> n \<le> 32) \<or> n = 133 \<or> n = 160)"

definition lstrip :: "string \<Rightarrow> string" where
  "lstrip s = dropWhile isspace s"

definition rstrip :: "string \<Rightarrow> string" where
  "rstrip s = rev (dropWhile isspace (rev s))"

definition strip :: "string \<Rightarrow> string" where
  "strip s = rstrip (lstrip s)"

text \<open>
  \<^verbatim>\<open>
  cleaned_text = analysis_text.strip()
  if cleaned_text.startswith('```json'):
      cleaned_text = cleaned_text[7:]
  if cleaned_text.endswith('```'):
      cleaned_text = cleaned_text[:-3]
  cleaned_text = cleaned_text.strip()
  \<close>
\<close>

definition strip_opening_fence :: "string \<Rightarrow> string" where
  "strip_opening_fence cleaned_text =
     (if prefix ''```json'' cleaned_text then drop 7 cleaned_text else cleaned_text)"

definition strip_closing_fence :: "string \<Rightarrow> string" where
  "strip_closing_fence cleaned_text =
     (if suffix ''```'' cleaned_text then take (length cleaned_text - 3) cleaned_text
      else cleaned_text)"

definition clean_text :: "string \<Rightarrow> string" where
  "clean_text analysis_text =
     strip (strip_closing_fence (strip_opening_fence (strip analysis_text)))"

section \<open>JSON values and the decoder\<close>

text \<open>
  The values \<open>json.loads\<close> returns: \<open>None\<close>, \<open>bool\<close>, \<open>int\<close>, \<open>float\<close>, \<open>str\<close>,
  \<open>list\<close> and \<open>dict\<close>. A string value is the list of its UTF-16 code units, since a
  \<open>\uXXXX\<close> escape can name a code point above 255. A float is kept as its decimal
  literal: binary floating point is not modelled. A dictionary is an association list
  in insertion order, with distinct keys when built by \<open>dict_set\<close>.
\<close>

type_synonym ustring = "nat list"

definition ustr :: "string \<Rightarrow> ustring" where
  "ustr s = map of_char s"

datatype json =
    JNull
  | JBool bool
  | JInt int
  | JFloat string
  | JStr ustring
  | JList "json list"
  | JDict "(ustring \<times> json) list"

text \<open>\<open>d[k] = v\<close> on a Python dictionary: an existing key keeps its position.\<close>

fun dict_set :: "(ustring \<times> json) list \<Rightarrow> ustring \<Rightarrow> json \<Rightarrow> (ustring \<times> json) list" where
  "dict_set [] k v = [(k, v)]"
| "dict_set (p # ps) k v = (if fst p = k then (k, v) # ps else p # dict_set ps k v)"

definition dict_get :: "(ustring \<times> json) list \<Rightarrow> ustring \<Rightarrow> json option" where
  "dict_get ps k = map_of ps k"

text \<open>
  The decoder of Python's \<open>json\<close> module is library code. It is modelled as a scanner
  that reads the text character by character into tokens, followed by a parser that
  reads the tokens with a stack of the containers still open. It accepts what the
  library's grammar accepts: the four whitespace characters space, tab, line feed and
  carriage return between tokens; numbers \<open>-?(0|[1-9][0-9]*)(.[0-9]+)?([eE][-+]?[0-9]+)?\<close>;
  the literals \<open>null\<close>, \<open>true\<close>, \<open>false\<close>, \<open>NaN\<close>, \<open>Infinity\<close>, \<open>-Infinity\<close>; strings
  in strict mode (no character below 32, the escapes \<open>\" \\ \/ \b \f \n \r \t\<close> and
  \<open>\u\<close> with four hexadecimal digits); arrays and objects without trailing commas; a
  repeated key keeps its last value. Any other text raises \<open>JSONDecodeError\<close>. The
  limits of an implementation (recursion depth, the length of an integer literal) are
  not modelled.
\<close>

datatype token =
    TLBrace | TRBrace | TLBracket | TRBracket | TComma | TColon
  | TString ustring
  | TScalar json

datatype numstate = NMinus | NZero | NInt | NDot | NFrac | NExp | NExpSign | NExpDigits

datatype lexstate =
    LStart
  | LString ustring
  | LEscape ustring
  | LUnicode ustring string
  | LNumber numstate string
  | LLiteral string json
  | LError

definition json_ws :: "char \<Rightarrow> bool" where
  "json_ws c \<longleftrightarrow> c = CHR '' '' \<or> c = CHR 0x09 \<or> c = CHR 0x0A \<or> c = CHR 0x0D"

definition is_digit :: "char \<Rightarrow> bool" where
  "is_digit c \<longleftrightarrow> (let n = (of_char c :: nat) in 48 \<le> n \<and> n \<le> 57)"

definition hex_value :: "char \<Rightarrow> nat option" where
  "hex_value c =
     (let n = (of_char c :: nat)
      in if 48 \<le> n \<and> n \<le> 57 then Some (n - 48)
         else if 65 \<le> n \<and> n \<le> 70 then Some (n - 55)
         else if 97 \<le> n \<and> n \<le> 102 then Some (n - 87)
         else None)"

definition hex_number :: "string \<Rightarrow> nat" where
  "hex_number ds = foldl (\<lambda>a c. 16 * a + (case hex_value c of Some d \<Rightarrow> d | None \<Rightarrow> 0)) 0 ds"

definition nat_of_digits :: "string \<Rightarrow> nat" where
  "nat_of_digits ds = foldl (\<lambda>a c. 10 * a + (of_char c - 48)) 0 ds"

definition int_of_literal :: "string \<Rightarrow> int" where
  "int_of_literal lx =
     (case lx of
        [] \<Rightarrow> 0
      | c # ds \<Rightarrow> if c = CHR ''-'' then - int (nat_of_digits ds) else int (nat_of_digits lx))"

definition num_next :: "numstate \<Rightarrow> char \<Rightarrow> numstate option" where
  "num_next ns c =
     (case ns of
        NMinus \<Rightarrow> if c = CHR ''0'' then Some NZero else if is_digit c then Some NInt else None
      | NZero \<Rightarrow> if c = CHR ''.'' then Some NDot
                 else if c = CHR ''e'' \<or> c = CHR ''E'' then Some NExp else None
      | NInt \<Rightarrow> if is_digit c then Some NInt
                else if c = CHR ''.'' then Some NDot
                else if c = CHR ''e'' \<or> c = CHR ''E'' then Some NExp else None
      | NDot \<Rightarrow> if is_digit c then Some NFrac else None
      | NFrac \<Rightarrow> if is_digit c then Some NFrac
                 else if c = CHR ''e'' \<or> c = CHR ''E'' then Some NExp else None
      | NExp \<Rightarrow> if c = CHR ''+'' \<or> c = CHR ''-'' then Some NExpSign
                else if is_digit c then Some NExpDigits else None
      | NExpSign \<Rightarrow> if is_digit c then Some NExpDigits else None
      | NExpDigits \<Rightarrow> if is_digit c then Some NExpDigits else None)"

definition num_final :: "numstate \<Rightarrow> bool" where
  "num_final ns \<longleftrightarrow> ns = NZero \<or> ns = NInt \<or> ns = NFrac \<or> ns = NExpDigits"

definition number_value :: "numstate \<Rightarrow> string \<Rightarrow> json" where
  "number_value ns lx = (if ns = NZero \<or> ns = NInt then JInt (int_of_literal lx) else JFloat lx)"

definition start_step :: "char \<Rightarrow> lexstate \<times> token list" where
  \<open>start_step c =
     (if json_ws c then (LStart, [])
      else if c = CHR ''{'' then (LStart, [TLBrace])
      else if c = CHR ''}'' then (LStart, [TRBrace])
      else if c = CHR ''['' then (LStart, [TLBracket])
      else if c = CHR '']'' then (LStart, [TRBracket])
      else if c = CHR '','' then (LStart, [TComma])
      else if c = CHR '':'' then (LStart, [TColon])
      else if c = CHR 0x22 then (LString [], [])
      else if c = CHR ''-'' then (LNumber NMinus [c], [])
      else if c = CHR ''0'' then (LNumber NZero [c], [])
      else if is_digit c then (LNumber NInt [c], [])
      else if c = CHR ''n'' then (LLiteral ''ull'' JNull, [])
      else if c = CHR ''t'' then (LLiteral ''rue'' (JBool True), [])
      else if c = CHR ''f'' then (LLiteral ''alse'' (JBool False), [])
      else if c = CHR ''N'' then (LLiteral ''aN'' (JFloat ''NaN''), [])
      else if c = CHR ''I'' then (LLiteral ''nfinity'' (JFloat ''Infinity''), [])
      else (LError, []))\<close>

definition escape_char :: "char \<Rightarrow> nat option" where
  \<open>escape_char c =
     (if c = CHR 0x22 then Some 34
      else if c = CHR 0x5C then Some 92
      else if c = CHR ''/'' then Some 47
      else if c = CHR ''b'' then Some 8
      else if c = CHR ''f'' then Some 12
      else if c = CHR ''n'' then Some 10
      else if c = CHR ''r'' then Some 13
      else if c = CHR ''t'' then Some 9
      else None)\<close>

definition lex_step :: "lexstate \<Rightarrow> char \<Rightarrow> lexstate \<times> token list" where
  "lex_step st c =
     (case st of
        LStart \<Rightarrow> start_step c
      | LString acc \<Rightarrow>
          if c = CHR 0x22 then (LStart, [TString acc])
          else if c = CHR 0x5C then (LEscape acc, [])
          else if (of_char c :: nat) < 32 then (LError, [])
          else (LString (acc @ [of_char c]), [])
      | LEscape acc \<Rightarrow>
          if c = CHR ''u'' then (LUnicode acc [], [])
          else (case escape_char c of
                  Some u \<Rightarrow> (LString (acc @ [u]), [])
                | None \<Rightarrow> (LError, []))
      | LUnicode acc hex \<Rightarrow>
          (case hex_value c of
             None \<Rightarrow> (LError, [])
           | Some d \<Rightarrow>
               if length hex = 3 then (LString (acc @ [hex_number (hex @ [c])]), [])
               else (LUnicode acc (hex @ [c]), []))
      | LNumber ns lx \<Rightarrow>
          (case num_next ns c of
             Some ns' \<Rightarrow> (LNumber ns' (lx @ [c]), [])
           | None \<Rightarrow>
               if ns = NMinus \<and> c = CHR ''I'' then (LLiteral ''nfinity'' (JFloat ''-Infinity''), [])
               else if num_final ns then
                 (case start_step c of (st', toks) \<Rightarrow> (st', TScalar (number_value ns lx) # toks))
               else (LError, []))
      | LLiteral rest v \<Rightarrow>
          (case rest of
             [] \<Rightarrow> (LError, [])
           | r # rs \<Rightarrow>
               if c = r then (if rs = [] then (LStart, [TScalar v]) else (LLiteral rs v, []))
               else (LError, []))
      | LError \<Rightarrow> (LError, []))"

definition lex_acc :: "lexstate \<times> token list \<Rightarrow> char \<Rightarrow> lexstate \<times> token list" where
  "lex_acc p c = (case p of (st, toks) \<Rightarrow> (case lex_step st c of (st', new) \<Rightarrow> (st', toks @ new)))"

definition lex_finish :: "lexstate \<Rightarrow> token list option" where
  "lex_finish st =
     (case st of
        LStart \<Rightarrow> Some []
      | LNumber ns lx \<Rightarrow> if num_final ns then Some [TScalar (number_value ns lx)] else None
      | _ \<Rightarrow> None)"

definition lex_end :: "lexstate \<times> token list \<Rightarrow> token list option" where
  "lex_end p = (case p of (st, toks) \<Rightarrow> map_option (\<lambda>last. toks @ last) (lex_finish st))"

definition lex :: "string \<Rightarrow> token list option" where
  "lex s = lex_end (foldl lex_acc (LStart, []) s)"

datatype frame =
    FList "json list"
  | FDict "(ustring \<times> json) list"
  | FDictValue "(ustring \<times> json) list" ustring

datatype pmode = MValue | MFirstValue | MFirstKey | MKey | MColon | MAfter

datatype pstate = PRun pmode "frame list" | PDone json | PError

definition complete :: "json \<Rightarrow> frame list \<Rightarrow> pstate" where
  "complete v fs =
     (case fs of
        [] \<Rightarrow> PDone v
      | FList es # fs' \<Rightarrow> PRun MAfter (FList (es @ [v]) # fs')
      | FDictValue ps k # fs' \<Rightarrow> PRun MAfter (FDict (dict_set ps k v) # fs')
      | FDict ps # fs' \<Rightarrow> PError)"

definition value_start :: "token \<Rightarrow> frame list \<Rightarrow> pstate" where
  "value_start t fs =
     (case t of
        TScalar v \<Rightarrow> complete v fs
      | TString s \<Rightarrow> complete (JStr s) fs
      | TLBracket \<Rightarrow> PRun MFirstValue (FList [] # fs)
      | TLBrace \<Rightarrow> PRun MFirstKey (FDict [] # fs)
      | _ \<Rightarrow> PError)"

definition key_start :: "token \<Rightarrow> (ustring \<times> json) list \<Rightarrow> frame list \<Rightarrow> pstate" where
  "key_start t ps fs =
     (case t of
        TString k \<Rightarrow> PRun MColon (FDictValue ps k # fs)
      | _ \<Rightarrow> PError)"

definition parse_step :: "pstate \<Rightarrow> token \<Rightarrow> pstate" where
  "parse_step st t =
     (case st of
        PDone v \<Rightarrow> PError
      | PError \<Rightarrow> PError
      | PRun m fs \<Rightarrow>
          (case m of
             MValue \<Rightarrow> value_start t fs
           | MFirstValue \<Rightarrow>
               (case fs of
                  FList es # fs' \<Rightarrow> if t = TRBracket then complete (JList es) fs' else value_start t fs
                | _ \<Rightarrow> PError)
           | MFirstKey \<Rightarrow>
               (case fs of
                  FDict ps # fs' \<Rightarrow> if t = TRBrace then complete (JDict ps) fs' else key_start t ps fs'
                | _ \<Rightarrow> PError)
           | MKey \<Rightarrow>
               (case fs of
                  FDict ps # fs' \<Rightarrow> key_start t ps fs'
                | _ \<Rightarrow> PError)
           | MColon \<Rightarrow> if t = TColon then PRun MValue fs else PError
           | MAfter \<Rightarrow>
               (case fs of
                  FList es # fs' \<Rightarrow>
                    if t = TComma then PRun MValue fs
                    else if t = TRBracket then complete (JList es) fs'
                    else PError
                | FDict ps # fs' \<Rightarrow>
                    if t = TComma then PRun MKey fs
                    else if t = TRBrace then complete (JDict ps) fs'
                    else PError
                | _ \<Rightarrow> PError)))"

datatype loads_result = JSONDecodeError | Loaded json

definition parse_tokens :: "token list \<Rightarrow> loads_result" where
  "parse_tokens toks =
     (case foldl parse_step (PRun MValue []) toks of
        PDone v \<Rightarrow> Loaded v
      | _ \<Rightarrow> JSONDecodeError)"

definition json_loads :: "string \<Rightarrow> loads_result" where
  "json_loads s = (case lex s of None \<Rightarrow> JSONDecodeError | Some toks \<Rightarrow> parse_tokens toks)"

section \<open>The analysis of the reviews\<close>

text \<open>
  What a run does to the outside world is a list of events, in the order they happen:
  the requests sent to the two services and the banners shown to the operator
  (\<open>st.error\<close>, \<open>st.warning\<close>). A service is a function from the request to either
  the text of the exception it raises (\<open>Inl\<close>, the value of \<open>str(e)\<close>) or its answer.
  For the text-generation service the answer is the content of the first choice of the
  completion, a string; a completion without such a string makes the source raise
  before the reply is cleaned, which is the \<open>Inl\<close> case as well.
\<close>

record search_query =
  engine :: string
  product_id :: string
  api_key :: string
  num :: nat

record search_results =
  results_reviews :: "review list option"

record chat_request =
  model :: string
  messages :: "(string \<times> string) list"
  temperature :: string
  max_tokens :: nat

datatype event =
    Search_request search_query
  | Chat_request chat_request
  | St_error string
  | St_warning string

text \<open>\<open>str(n)\<close> for a length, and \<open>sep.join(xs)\<close>.\<close>

fun str_nat :: "nat \<Rightarrow> string" where
  "str_nat n =
     (if n < 10 then [char_of (48 + n)]
      else str_nat (n div 10) @ [char_of (48 + n mod 10)])"

declare str_nat.simps [simp del]

fun join :: "string \<Rightarrow> string list \<Rightarrow> string" where
  "join sep [] = []"
| "join sep [x] = x"
| "join sep (x # y # ys) = x @ sep @ join sep (y # ys)"

text \<open>
  The prompt is the formatted string of the source, cut at its three placeholders:
  \<open>{len(review_texts)}\<close>, \<open>{app_name}\<close> and \<open>{' '.join(review_texts[:50])}\<close>.
\<close>

definition prompt_head :: string where
  \<open>prompt_head = ''\<newline>        Analyze the following ''\<close>

definition prompt_mid :: string where
  \<open>prompt_mid = '' Apple App Store reviews for ''\<close>

definition prompt_reviews :: string where
  \<open>prompt_reviews =
     ''.\<newline>'' @
     ''        \<newline>'' @
     ''        Reviews:\<newline>'' @
     ''        ''\<close>

definition prompt_tail :: string where
  \<open>prompt_tail =
     ''  # Limit to first 50 reviews to avoid token limits\<newline>'' @
     ''        \<newline>'' @
     ''        You must respond with ONLY valid JSON in this exact format:\<newline>'' @
     ''        {\<newline>'' @
     ''            "overall_sentiment": "positive",\<newline>'' @
     ''            "sentiment_score": 0.8,\<newline>'' @
     ''            "key_themes": ["user interface", "performance", "features"],\<newline>'' @
     ''            "common_issues": ["slow loading", "buggy", "missing features"],\<newline>'' @
     ''            "strengths": ["easy to use", "reliable", "good design"],\<newline>'' @
     ''            "user_experience_feedback": "Users generally find the app intuitive but report performance issues",\<newline>'' @
     ''            "feature_requests": ["dark mode", "better search", "offline support"],\<newline>'' @
     ''            "rating_distribution": {\<newline>'' @
     ''                "1_star": 0,\<newline>'' @
     ''                "2_star": 0,\<newline>'' @
     ''                "3_star": 0,\<newline>'' @
     ''                "4_star": 0,\<newline>'' @
     ''                "5_star": 0\<newline>'' @
     ''            }\<newline>'' @
     ''        }\<newline>'' @
     ''        \<newline>'' @
     ''        IMPORTANT: Respond with ONLY the JSON object, no additional text or explanations.\<newline>'' @
     ''        ''\<close>

definition build_prompt :: "string list \<Rightarrow> string \<Rightarrow> string" where
  "build_prompt review_texts app_name =
     prompt_head @ str_nat (length review_texts) @ prompt_mid @ app_name @ prompt_reviews
       @ join '' '' (take 50 review_texts) @ prompt_tail"

definition system_content :: string where
  "system_content = ''You are an expert app analyst specializing in user feedback analysis.''"

definition build_request :: "string \<Rightarrow> chat_request" where
  "build_request prompt =
     \<lparr>model = ''gpt-4'',
      messages = [(''system'', system_content), (''user'', prompt)],
      temperature = ''0.3'',
      max_tokens = 1000\<rparr>"

text \<open>The object substituted when the reply does not decode.\<close>

definition fallback_analysis :: json where
  "fallback_analysis =
     JDict
       [(ustr ''overall_sentiment'', JStr (ustr ''neutral'')),
        (ustr ''sentiment_score'', JFloat ''0.5''),
        (ustr ''key_themes'', JList [JStr (ustr ''User feedback analysis completed'')]),
        (ustr ''common_issues'', JList [JStr (ustr ''Review analysis available'')]),
        (ustr ''strengths'', JList [JStr (ustr ''User insights gathered'')]),
        (ustr ''user_experience_feedback'', JStr (ustr ''Analysis completed successfully'')),
        (ustr ''feature_requests'', JList [JStr (ustr ''User feedback processed'')]),
        (ustr ''rating_distribution'',
           JDict [(ustr ''1_star'', JInt 0), (ustr ''2_star'', JInt 0), (ustr ''3_star'', JInt 0),
                  (ustr ''4_star'', JInt 0), (ustr ''5_star'', JInt 0)])]"

definition formatting_warning :: string where
  "formatting_warning =
     ''Analysis completed but some formatting issues were encountered. Showing available insights.''"

text \<open>
  The inner \<open>try\<close>: the reply is cleaned and decoded; \<open>JSONDecodeError\<close> is caught, a
  warning is shown and the fallback object is used.
\<close>

definition parse_reply :: "string \<Rightarrow> json \<times> event list" where
  "parse_reply analysis_text =
     (case json_loads (clean_text analysis_text) of
        Loaded analysis \<Rightarrow> (analysis, [])
      | JSONDecodeError \<Rightarrow> (fallback_analysis, [St_warning formatting_warning]))"

text \<open>
  \<^verbatim>\<open>
  analysis["rating_distribution"] = {
      "1_star": rating_counts[1], ..., "5_star": rating_counts[5]
  }
  \<close>
  A lookup of a missing key raises \<open>KeyError\<close>, whose text is the key. The assignment
  raises \<open>TypeError\<close> when \<open>analysis\<close> is not a dictionary.
\<close>

definition str_int :: "int \<Rightarrow> string" where
  "str_int i = (if i < 0 then CHR ''-'' # str_nat (nat (- i)) else str_nat (nat i))"

definition count_at :: "(int \<rightharpoonup> nat) \<Rightarrow> int \<Rightarrow> string + json" where
  "count_at rating_counts k =
     (case rating_counts k of None \<Rightarrow> Inl (str_int k) | Some n \<Rightarrow> Inr (JInt (int n)))"

definition rating_distribution :: "(int \<rightharpoonup> nat) \<Rightarrow> string + json" where
  "rating_distribution rating_counts =
     (case count_at rating_counts 1 of Inl e \<Rightarrow> Inl e | Inr c1 \<Rightarrow>
      case count_at rating_counts 2 of Inl e \<Rightarrow> Inl e | Inr c2 \<Rightarrow>
      case count_at rating_counts 3 of Inl e \<Rightarrow> Inl e | Inr c3 \<Rightarrow>
      case count_at rating_counts 4 of Inl e \<Rightarrow> Inl e | Inr c4 \<Rightarrow>
      case count_at rating_counts 5 of Inl e \<Rightarrow> Inl e | Inr c5 \<Rightarrow>
        Inr (JDict [(ustr ''1_star'', c1), (ustr ''2_star'', c2), (ustr ''3_star'', c3),
                    (ustr ''4_star'', c4), (ustr ''5_star'', c5)]))"

definition no_item_assignment :: "string \<Rightarrow> string" where
  "no_item_assignment type_name =
     [CHR 0x27] @ type_name @ [CHR 0x27] @ '' object does not support item assignment''"

fun set_item :: "json \<Rightarrow> ustring \<Rightarrow> json \<Rightarrow> string + json" where
  "set_item (JDict ps) k v = Inr (JDict (dict_set ps k v))"
| "set_item (JList xs) k v = Inl ''list indices must be integers or slices, not str''"
| "set_item JNull k v = Inl (no_item_assignment ''NoneType'')"
| "set_item (JBool b) k v = Inl (no_item_assignment ''bool'')"
| "set_item (JInt i) k v = Inl (no_item_assignment ''int'')"
| "set_item (JFloat f) k v = Inl (no_item_assignment ''float'')"
| "set_item (JStr s) k v = Inl (no_item_assignment ''str'')"

definition analyze_error :: "string \<Rightarrow> event" where
  "analyze_error e = St_error (''Error analyzing reviews with OpenAI: '' @ e)"

text \<open>
  \<open>analyze_reviews_with_openai\<close>. The result \<open>None\<close> is the pair \<open>(None, None)\<close> of the
  source; \<open>Some (analysis, ratings)\<close> is a returned analysis with the ratings. Every
  exception raised after the first loop is caught by the outer handler, which shows an
  error and returns \<open>(None, None)\<close>.
\<close>

definition analyze_reviews_with_openai ::
  "review list \<Rightarrow> string \<Rightarrow> (chat_request \<Rightarrow> string + string)
     \<Rightarrow> (json \<times> int list) option \<times> event list" where
  "analyze_reviews_with_openai reviews app_name openai_client =
     (case collect reviews of (review_texts, ratings) \<Rightarrow>
        if review_texts = [] then (None, [])
        else
          let request = build_request (build_prompt review_texts app_name) in
          case openai_client request of
            Inl e \<Rightarrow> (None, [Chat_request request, analyze_error e])
          | Inr analysis_text \<Rightarrow>
              (case parse_reply analysis_text of (analysis, warnings) \<Rightarrow>
                 (case rating_distribution (count_ratings ratings) of
                    Inl e \<Rightarrow> (None, Chat_request request # warnings @ [analyze_error e])
                  | Inr distribution \<Rightarrow>
                      (case set_item analysis (ustr ''rating_distribution'') distribution of
                         Inl e \<Rightarrow> (None, Chat_request request # warnings @ [analyze_error e])
                       | Inr analysis' \<Rightarrow>
                           (Some (analysis', ratings), Chat_request request # warnings)))))"

section \<open>Fetching the reviews and the run\<close>

definition fetch_app_store_reviews ::
  "(search_query \<Rightarrow> string + search_results) \<Rightarrow> string \<Rightarrow> string \<Rightarrow> nat
     \<Rightarrow> review list \<times> event list" where
  "fetch_app_store_reviews search app_id key max_reviews =
     (let query = \<lparr>engine = ''apple_reviews'', product_id = app_id, api_key = key,
                    num = max_reviews\<rparr> in
      case search query of
        Inl e \<Rightarrow> ([], [Search_request query, St_error (''Error fetching reviews: '' @ e)])
      | Inr results \<Rightarrow>
          (case results_reviews results of
             None \<Rightarrow> ([], [Search_request query, St_error (''No reviews found for app ID: '' @ app_id)])
           | Some reviews \<Rightarrow> (reviews, [Search_request query])))"

text \<open>
  \<open>main\<close>, up to the display of the results. The sidebar gives the two keys typed by the
  operator (the empty string when left blank) and whether the button was pressed;
  \<open>getenv\<close> is the process environment. A key is unusable when it is \<open>None\<close> or empty
  (\<open>not key\<close>). The analysis returned by \<open>analyze_reviews_with_openai\<close> is a
  dictionary, and \<open>not teams_analysis\<close> holds of a dictionary when it is empty. The progress bar and the rendering of the results are left out. The
  warning of the source starts with a warning sign and a space, which are outside the
  alphabet of the model and left out of \<open>keys_warning\<close>.
\<close>

record sidebar =
  openai_api_key_input :: string
  serpapi_key_input :: string
  run_analysis :: bool

datatype outcome =
    Missing_keys
  | Idle
  | Fetch_failed
  | Analysis_failed
  | Displayed json "int list" "review list"

definition resolve_key :: "string \<Rightarrow> string option \<Rightarrow> string option" where
  "resolve_key entered env = (if entered = [] then env else Some entered)"

definition keys_warning :: string where
  "keys_warning =
     ''Please enter your API keys in the sidebar or set them in your .env file to begin analysis.''"

definition fetch_failed_error :: string where
  "fetch_failed_error = ''Failed to fetch Teams reviews. Please check the app ID and API key.''"

definition analysis_failed_error :: string where
  "analysis_failed_error =
     ''Failed to analyze reviews. Please check your OpenAI API key and try again.''"

definition main ::
  "sidebar \<Rightarrow> (string \<Rightarrow> string option) \<Rightarrow> (search_query \<Rightarrow> string + search_results)
     \<Rightarrow> (string \<Rightarrow> chat_request \<Rightarrow> string + string) \<Rightarrow> outcome \<times> event list" where
  "main ui getenv search openai =
     (let openai_api_key = resolve_key (openai_api_key_input ui) (getenv ''OPENAI_API_KEY'');
          serpapi_key = resolve_key (serpapi_key_input ui) (getenv ''SERPAPI_KEY'')
      in case (openai_api_key, serpapi_key) of
           (Some okey, Some skey) \<Rightarrow>
             if okey = [] \<or> skey = [] then (Missing_keys, [St_warning keys_warning])
             else if \<not> run_analysis ui then (Idle, [])
             else
               (case fetch_app_store_reviews search ''1113153706'' skey 25 of
                  (teams_reviews, fetched) \<Rightarrow>
                    if teams_reviews = [] then (Fetch_failed, fetched @ [St_error fetch_failed_error])
                    else
                      (case analyze_reviews_with_openai teams_reviews ''Microsoft Teams'' (openai okey) of
                         (None, analyzed) \<Rightarrow>
                           (Analysis_failed, fetched @ analyzed @ [St_error analysis_failed_error])
                       | (Some (teams_analysis, teams_ratings), analyzed) \<Rightarrow>
                           if teams_analysis = JDict []
                           then (Analysis_failed, fetched @ analyzed @ [St_error analysis_failed_error])
                           else (Displayed teams_analysis teams_ratings teams_reviews,
                                 fetched @ analyzed)))
         | _ \<Rightarrow> (Missing_keys, [St_warning keys_warning]))"

text \<open>Which events are calls over the network.\<close>

definition network_call :: "event \<Rightarrow> bool" where
  "network_call e \<longleftrightarrow> (case e of Search_request q \<Rightarrow> True | Chat_request r \<Rightarrow> True | _ \<Rightarrow> False)"

definition chat_call :: "event \<Rightarrow> bool" where
  "chat_call e \<longleftrightarrow> (case e of Chat_request r \<Rightarrow> True | _ \<Rightarrow> False)"

section \<open>Notions used to state the properties\<close>

text \<open>
  The texts and ratings of a list of reviews, written as filters: a text is usable when
  the key is present and the string is not empty; a rating is taken when the key is
  present.
\<close>

definition usable_text :: "review \<Rightarrow> string option" where
  "usable_text r = (case review_text r of None \<Rightarrow> None | Some t \<Rightarrow> if t = [] then None else Some t)"

definition usable_texts :: "review list \<Rightarrow> string list" where
  "usable_texts reviews = List.map_filter usable_text reviews"

definition ratings_of :: "review list \<Rightarrow> int list" where
  "ratings_of reviews = List.map_filter review_rating reviews"

text \<open>The histogram of the true counts, as the dictionary stored in the analysis.\<close>

definition true_distribution :: "int list \<Rightarrow> json" where
  "true_distribution ratings =
     JDict [(ustr ''1_star'', JInt (int (occurrences 1 ratings))),
            (ustr ''2_star'', JInt (int (occurrences 2 ratings))),
            (ustr ''3_star'', JInt (int (occurrences 3 ratings))),
            (ustr ''4_star'', JInt (int (occurrences 4 ratings))),
            (ustr ''5_star'', JInt (int (occurrences 5 ratings)))]"

definition is_dict :: "json \<Rightarrow> bool" where
  "is_dict v \<longleftrightarrow> (case v of JDict ps \<Rightarrow> True | _ \<Rightarrow> False)"

definition field :: "json \<Rightarrow> string \<Rightarrow> json option" where
  "field v k = (case v of JDict ps \<Rightarrow> dict_get ps (ustr k) | _ \<Rightarrow> None)"

text \<open>A text-generation service that answers every request with the same text.\<close>

definition reply_with :: "string \<Rightarrow> chat_request \<Rightarrow> string + string" where
  "reply_with reply request = Inr reply"

text \<open>The three reviews of the end-to-end scenario.\<close>

definition scenario_reviews :: "review list" where
  "scenario_reviews =
     [\<lparr>review_text = Some ''Great app'', review_rating = Some 5\<rparr>,
      \<lparr>review_text = Some [], review_rating = Some 2\<rparr>,
      \<lparr>review_text = Some ''Crashes a lot'', review_rating = Some 1\<rparr>]"

text \<open>The query \<open>main\<close> sends for the reviews, and simple environments for examples.\<close>

definition teams_query :: "string \<Rightarrow> search_query" where
  "teams_query key =
     \<lparr>engine = ''apple_reviews'', product_id = ''1113153706'', api_key = key, num = 25\<rparr>"

definition search_returning :: "review list \<Rightarrow> search_query \<Rightarrow> string + search_results" where
  "search_returning reviews query = Inr \<lparr>results_reviews = Some reviews\<rparr>"

definition search_without_reviews :: "search_query \<Rightarrow> string + search_results" where
  "search_without_reviews query = Inr \<lparr>results_reviews = None\<rparr>"

definition search_failing :: "string \<Rightarrow> search_query \<Rightarrow> string + search_results" where
  "search_failing e query = Inl e"

definition openai_replying :: "string \<Rightarrow> string \<Rightarrow> chat_request \<Rightarrow> string + string" where
  "openai_replying reply key = reply_with reply"

definition empty_env :: "string \<Rightarrow> string option" where
  "empty_env name = None"

definition keys_entered :: sidebar where
  "keys_entered = \<lparr>openai_api_key_input = ''sk-test'', serpapi_key_input = ''serp-test'',
                    run_analysis = True\<rparr>"


text \<open>
  Two sets of scanner states, for the proofs about the decoder: the states inside a
  string (or failed), and the states whose pending literal has no whitespace and no
  backquote left to read, which all reachable states are.
\<close>

definition in_string :: "lexstate \<Rightarrow> bool" where
  "in_string st \<longleftrightarrow> (case st of LString a \<Rightarrow> True | LEscape a \<Rightarrow> True | LUnicode a h \<Rightarrow> True | LError \<Rightarrow> True | _ \<Rightarrow> False)"

definition literal_ok :: "lexstate \<Rightarrow> bool" where
  "literal_ok st \<longleftrightarrow> (case st of LLiteral rest v \<Rightarrow> (\<forall>c \<in> set rest. \<not> isspace c \<and> c \<noteq> CHR 0x60) | _ \<Rightarrow> True)"

section \<open>Properties of the histogram\<close>





lemma foldl_count_rating_key:
  "rc k = Some n \<Longrightarrow> foldl count_rating rc rs k = Some (n + occurrences k rs)"
proof (induction rs arbitrary: rc n)
  case Nil
  then show ?case by (simp add: occurrences_def)
next
  case (Cons r rs)
  show ?case
  proof (cases "r = k")
    case True
    with Cons.prems have "count_rating rc r k = Some (n + 1)"
      by (simp add: count_rating_def)
    from Cons.IH [of "count_rating rc r" "n + 1"] this True show ?thesis
      by (simp add: occurrences_def)
  next
    case False
    with Cons.prems have "count_rating rc r k = Some n"
      by (simp add: count_rating_def split: option.splits)
    from Cons.IH [of "count_rating rc r" n] this False show ?thesis
      by (simp add: occurrences_def)
  qed
qed

lemma count_ratings_key:
  "in_range k \<Longrightarrow> count_ratings rs k = Some (occurrences k rs)"
proof -
  assume "in_range k"
  then have "rating_counts_init k = Some 0"
    by (auto simp: in_range_def rating_counts_init_def)
  from foldl_count_rating_key [of rating_counts_init k 0 rs] this show ?thesis
    by (simp add: count_ratings_def)
qed








section \<open>The two loops and the stored histogram\<close>

lemma collect_step_eq:
  "collect_step (ts, rs) r =
     (ts @ (case usable_text r of None \<Rightarrow> [] | Some t \<Rightarrow> [t]),
      rs @ (case review_rating r of None \<Rightarrow> [] | Some x \<Rightarrow> [x]))"
  by (simp add: collect_step_def usable_text_def split: option.splits)

lemma foldl_collect_step:
  "foldl collect_step (ts, rs) reviews = (ts @ usable_texts reviews, rs @ ratings_of reviews)"
proof (induction reviews arbitrary: ts rs)
  case Nil
  show ?case by (simp add: usable_texts_def ratings_of_def map_filter_simps)
next
  case (Cons r reviews)
  have "foldl collect_step (ts, rs) (r # reviews) = foldl collect_step (collect_step (ts, rs) r) reviews"
    by simp
  also have "\<dots> = (ts @ usable_texts (r # reviews), rs @ ratings_of (r # reviews))"
    unfolding collect_step_eq Cons.IH
    by (simp add: usable_texts_def ratings_of_def map_filter_simps split: option.splits)
  finally show ?case .
qed

lemma collect_eq: "collect reviews = (usable_texts reviews, ratings_of reviews)"
  by (simp add: collect_def foldl_collect_step)

lemma count_at_count_ratings:
  "in_range k \<Longrightarrow> count_at (count_ratings rs) k = Inr (JInt (int (occurrences k rs)))"
  by (simp add: count_at_def count_ratings_key)

lemma rating_distribution_count_ratings:
  "rating_distribution (count_ratings rs) = Inr (true_distribution rs)"
proof -
  have "in_range 1" "in_range 2" "in_range 3" "in_range 4" "in_range 5"
    by (simp_all add: in_range_def)
  then show ?thesis
    by (simp add: rating_distribution_def true_distribution_def count_at_count_ratings)
qed

lemma dict_get_dict_set: "dict_get (dict_set ps k v) k = Some v"
  by (induction ps) (simp_all add: dict_get_def)


lemma set_item_Inr: "set_item a k v = Inr a' \<Longrightarrow> \<exists>ps. a = JDict ps \<and> a' = JDict (dict_set ps k v)"
  by (cases a) simp_all

lemma set_item_not_dict: "\<not> is_dict a \<Longrightarrow> \<exists>e. set_item a k v = Inl e"
  by (cases a) (simp_all add: is_dict_def)

text \<open>\<open>analyze_reviews_with_openai\<close> with the two loops replaced by what they compute.\<close>

lemma analyze_unfold:
  "analyze_reviews_with_openai reviews app_name client =
     (if usable_texts reviews = [] then (None, [])
      else
        let request = build_request (build_prompt (usable_texts reviews) app_name) in
        case client request of
          Inl e \<Rightarrow> (None, [Chat_request request, analyze_error e])
        | Inr analysis_text \<Rightarrow>
            (case parse_reply analysis_text of (analysis, warnings) \<Rightarrow>
               (case set_item analysis (ustr ''rating_distribution'')
                       (true_distribution (ratings_of reviews)) of
                  Inl e \<Rightarrow> (None, Chat_request request # warnings @ [analyze_error e])
                | Inr analysis' \<Rightarrow>
                    (Some (analysis', ratings_of reviews), Chat_request request # warnings))))"
  by (simp add: analyze_reviews_with_openai_def collect_eq rating_distribution_count_ratings
      Let_def split: sum.splits prod.splits)

text \<open>
  Claim C1. Whenever \<open>analyze_reviews_with_openai\<close> returns an analysis, whatever the
  service replied and whether the reply decoded or the fallback object was used, the
  analysis is the decoded or fallback dictionary with its \<open>rating_distribution\<close> key set
  to the counts of the ratings 1 to 5 among the ratings of the fetched reviews, so that
  is what the field holds; the ratings returned are the ratings of the reviews.
\<close>

theorem rating_distribution_recomputed:
  assumes "fst (analyze_reviews_with_openai reviews app_name client) = Some (analysis, ratings)"
  shows "ratings = ratings_of reviews
    \<and> field analysis ''rating_distribution'' = Some (true_distribution ratings)
    \<and> (\<forall>k. in_range k \<longrightarrow> count_ratings ratings k = Some (occurrences k ratings))
    \<and> (\<exists>reply parsed.
          client (build_request (build_prompt (usable_texts reviews) app_name)) = Inr reply
          \<and> fst (parse_reply reply) = JDict parsed
          \<and> analysis = JDict (dict_set parsed (ustr ''rating_distribution'')
                                 (true_distribution ratings)))"
proof -
  let ?req = "build_request (build_prompt (usable_texts reviews) app_name)"
  from assms have ne: "usable_texts reviews \<noteq> []"
    by (auto simp: analyze_unfold)
  from assms ne obtain reply where reply: "client ?req = Inr reply"
    by (cases "client ?req") (auto simp: analyze_unfold Let_def)
  obtain a w where pr: "parse_reply reply = (a, w)"
    by (cases "parse_reply reply")
  let ?d = "true_distribution (ratings_of reviews)"
  from assms ne reply pr obtain a' where
    si: "set_item a (ustr ''rating_distribution'') ?d = Inr a'"
    by (cases "set_item a (ustr ''rating_distribution'') ?d") (auto simp: analyze_unfold Let_def)
  from assms ne reply pr si have res: "analysis = a'" "ratings = ratings_of reviews"
    by (auto simp: analyze_unfold Let_def)
  from set_item_Inr [OF si] obtain ps where
    ps: "a = JDict ps" "a' = JDict (dict_set ps (ustr ''rating_distribution'') ?d)"
    by blast
  have "field analysis ''rating_distribution'' = Some (true_distribution ratings)"
    using res ps by (simp add: field_def dict_get_dict_set)
  moreover have "\<forall>k. in_range k \<longrightarrow> count_ratings ratings k = Some (occurrences k ratings)"
    by (simp add: count_ratings_key)
  moreover have "\<exists>reply parsed. client ?req = Inr reply \<and> fst (parse_reply reply) = JDict parsed
      \<and> analysis = JDict (dict_set parsed (ustr ''rating_distribution'') (true_distribution ratings))"
    using reply pr ps res by auto
  ultimately show ?thesis using res by blast
qed

theorem rating_distribution_recomputed_witness:
  \<open>fst (analyze_reviews_with_openai scenario_reviews ''Microsoft Teams''
          (reply_with ''{"overall_sentiment": "positive", "rating_distribution": {"5_star": 99}}''))
     = Some (JDict [(ustr ''overall_sentiment'', JStr (ustr ''positive'')),
                    (ustr ''rating_distribution'',
                       JDict [(ustr ''1_star'', JInt 1), (ustr ''2_star'', JInt 1),
                              (ustr ''3_star'', JInt 0), (ustr ''4_star'', JInt 0),
                              (ustr ''5_star'', JInt 1)])],
             [5, 2, 1])
   \<and> [5, 2, 1] = ratings_of scenario_reviews
   \<and> field (JDict [(ustr ''overall_sentiment'', JStr (ustr ''positive'')),
                    (ustr ''rating_distribution'',
                       JDict [(ustr ''1_star'', JInt 1), (ustr ''2_star'', JInt 1),
                              (ustr ''3_star'', JInt 0), (ustr ''4_star'', JInt 0),
                              (ustr ''5_star'', JInt 1)])])
        ''rating_distribution'' = Some (true_distribution [5, 2, 1])\<close>
proof -
  let ?a = "JDict [(ustr ''overall_sentiment'', JStr (ustr ''positive'')),
                    (ustr ''rating_distribution'',
                       JDict [(ustr ''1_star'', JInt 1), (ustr ''2_star'', JInt 1),
                              (ustr ''3_star'', JInt 0), (ustr ''4_star'', JInt 0),
                              (ustr ''5_star'', JInt 1)])]"
  have h: \<open>fst (analyze_reviews_with_openai scenario_reviews ''Microsoft Teams''
          (reply_with ''{"overall_sentiment": "positive", "rating_distribution": {"5_star": 99}}''))
     = Some (?a, [5, 2, 1])\<close>
    by code_simp
  from rating_distribution_recomputed [OF h] h show ?thesis
    by blast
qed

section \<open>Reviews without text\<close>

lemma usable_texts_empty:
  "usable_texts reviews = [] \<longleftrightarrow> (\<forall>r \<in> set reviews. review_text r = None \<or> review_text r = Some [])"
  by (induction reviews)
    (auto simp: usable_texts_def map_filter_simps usable_text_def split: option.splits if_splits)

text \<open>
  Claim C6. When no review has a non-empty text, \<open>analyze_reviews_with_openai\<close> returns
  \<open>(None, None)\<close> and nothing has happened: no request to the text-generation service
  and no banner.
\<close>

theorem no_text_no_request:
  assumes "\<forall>r \<in> set reviews. review_text r = None \<or> review_text r = Some []"
  shows "analyze_reviews_with_openai reviews app_name client = (None, [])"
  using assms by (simp add: analyze_unfold usable_texts_empty)

theorem no_text_no_request_witness:
  "review_text \<lparr>review_text = Some [], review_rating = Some 2\<rparr> = Some []
   \<and> review_text \<lparr>review_text = None, review_rating = Some 4\<rparr> = None
   \<and> analyze_reviews_with_openai
         [\<lparr>review_text = Some [], review_rating = Some 2\<rparr>,
          \<lparr>review_text = None, review_rating = Some 4\<rparr>]
         ''Microsoft Teams'' (reply_with ''{}'') = (None, [])"
proof -
  have h: "\<forall>r \<in> set [\<lparr>review_text = Some [], review_rating = Some (2::int)\<rparr>,
                 \<lparr>review_text = None, review_rating = Some 4\<rparr>].
       review_text r = None \<or> review_text r = Some []"
    by simp
  from no_text_no_request [OF h] show ?thesis
    by simp
qed

section \<open>Replies that do not decode, and replies that are not objects\<close>






section \<open>The run\<close>

lemma fetch_found:
  "search (teams_query skey) = Inr results \<Longrightarrow> results_reviews results = Some reviews \<Longrightarrow>
   fetch_app_store_reviews search ''1113153706'' skey 25 = (reviews, [Search_request (teams_query skey)])"
  by (simp add: fetch_app_store_reviews_def teams_query_def)

lemma fetch_events_no_chat:
  "\<forall>ev \<in> set (snd (fetch_app_store_reviews search app_id key max_reviews)). \<not> chat_call ev"
  by (simp add: fetch_app_store_reviews_def chat_call_def Let_def split: sum.splits option.splits)

lemma main_run:
  assumes "resolve_key (openai_api_key_input ui) (getenv ''OPENAI_API_KEY'') = Some okey"
    and "okey \<noteq> []"
    and "resolve_key (serpapi_key_input ui) (getenv ''SERPAPI_KEY'') = Some skey"
    and "skey \<noteq> []"
    and "run_analysis ui"
  shows "main ui getenv search openai =
     (case fetch_app_store_reviews search ''1113153706'' skey 25 of
        (teams_reviews, fetched) \<Rightarrow>
          if teams_reviews = [] then (Fetch_failed, fetched @ [St_error fetch_failed_error])
          else
            (case analyze_reviews_with_openai teams_reviews ''Microsoft Teams'' (openai okey) of
               (None, analyzed) \<Rightarrow>
                 (Analysis_failed, fetched @ analyzed @ [St_error analysis_failed_error])
             | (Some (teams_analysis, teams_ratings), analyzed) \<Rightarrow>
                 if teams_analysis = JDict []
                 then (Analysis_failed, fetched @ analyzed @ [St_error analysis_failed_error])
                 else (Displayed teams_analysis teams_ratings teams_reviews, fetched @ analyzed)))"
  using assms by (simp add: main_def)

lemma main_not_run:
  assumes "\<not> (\<exists>okey skey.
      resolve_key (openai_api_key_input ui) (getenv ''OPENAI_API_KEY'') = Some okey \<and> okey \<noteq> []
      \<and> resolve_key (serpapi_key_input ui) (getenv ''SERPAPI_KEY'') = Some skey \<and> skey \<noteq> []
      \<and> run_analysis ui)"
  shows "snd (main ui getenv search openai) = [St_warning keys_warning]
     \<or> snd (main ui getenv search openai) = []"
  using assms by (auto simp: main_def split: option.splits)

text \<open>
  Claim C10. When the cleaned reply decodes to a JSON value that is not an object, the
  parsing step hands that value on with no warning (the fallback is not used), the
  assignment of \<open>rating_distribution\<close> raises, and \<open>analyze_reviews_with_openai\<close> shows
  the error and returns \<open>(None, None)\<close>; a run of \<open>main\<close> whose analysis step this is
  ends with the analysis-failed error.
\<close>

theorem non_object_reply_fails:
  assumes "json_loads (clean_text reply) = Loaded v" and "\<not> is_dict v"
  shows "parse_reply reply = (v, [])
    \<and> (usable_texts reviews \<noteq> []
         \<and> client (build_request (build_prompt (usable_texts reviews) ''Microsoft Teams'')) = Inr reply
       \<longrightarrow> (\<exists>e.
             set_item v (ustr ''rating_distribution'') (true_distribution (ratings_of reviews)) = Inl e
             \<and> analyze_reviews_with_openai reviews ''Microsoft Teams'' client =
                 (None,
                  [Chat_request (build_request (build_prompt (usable_texts reviews) ''Microsoft Teams'')),
                   analyze_error e])
             \<and> (\<forall>ui getenv search openai okey skey results.
                   resolve_key (openai_api_key_input ui) (getenv ''OPENAI_API_KEY'') = Some okey
                   \<and> okey \<noteq> []
                   \<and> resolve_key (serpapi_key_input ui) (getenv ''SERPAPI_KEY'') = Some skey
                   \<and> skey \<noteq> []
                   \<and> run_analysis ui
                   \<and> search (teams_query skey) = Inr results
                   \<and> results_reviews results = Some reviews
                   \<and> openai okey = client
                   \<longrightarrow> main ui getenv search openai =
                         (Analysis_failed,
                          [Search_request (teams_query skey),
                           Chat_request (build_request (build_prompt (usable_texts reviews)
                                                          ''Microsoft Teams'')),
                           analyze_error e,
                           St_error analysis_failed_error]))))"
proof (intro conjI impI)
  from assms(1) show pr: "parse_reply reply = (v, [])"
    by (simp add: parse_reply_def)
  let ?req = "build_request (build_prompt (usable_texts reviews) ''Microsoft Teams'')"
  let ?d = "true_distribution (ratings_of reviews)"
  assume a: "usable_texts reviews \<noteq> [] \<and> client ?req = Inr reply"
  from set_item_not_dict [OF assms(2)] obtain e where
    e: "set_item v (ustr ''rating_distribution'') ?d = Inl e"
    by blast
  have run: "analyze_reviews_with_openai reviews ''Microsoft Teams'' client =
      (None, [Chat_request ?req, analyze_error e])"
    using a pr e by (simp add: analyze_unfold Let_def)
  from a have ne: "reviews \<noteq> []"
    by (auto simp: usable_texts_def map_filter_simps)
  have m: "main ui getenv search openai =
      (Analysis_failed,
       [Search_request (teams_query skey), Chat_request ?req, analyze_error e,
        St_error analysis_failed_error])"
    if h: "resolve_key (openai_api_key_input ui) (getenv ''OPENAI_API_KEY'') = Some okey
         \<and> okey \<noteq> []
         \<and> resolve_key (serpapi_key_input ui) (getenv ''SERPAPI_KEY'') = Some skey
         \<and> skey \<noteq> []
         \<and> run_analysis ui
         \<and> search (teams_query skey) = Inr results
         \<and> results_reviews results = Some reviews
         \<and> openai okey = client"
    for ui getenv search openai okey skey results
  proof -
    from h have f: "fetch_app_store_reviews search ''1113153706'' skey 25
        = (reviews, [Search_request (teams_query skey)])"
      by (simp add: fetch_found)
    from h have "main ui getenv search openai =
       (case fetch_app_store_reviews search ''1113153706'' skey 25 of
        (teams_reviews, fetched) \<Rightarrow>
          if teams_reviews = [] then (Fetch_failed, fetched @ [St_error fetch_failed_error])
          else
            (case analyze_reviews_with_openai teams_reviews ''Microsoft Teams'' (openai okey) of
               (None, analyzed) \<Rightarrow>
                 (Analysis_failed, fetched @ analyzed @ [St_error analysis_failed_error])
             | (Some (teams_analysis, teams_ratings), analyzed) \<Rightarrow>
                 if teams_analysis = JDict []
                 then (Analysis_failed, fetched @ analyzed @ [St_error analysis_failed_error])
                 else (Displayed teams_analysis teams_ratings teams_reviews, fetched @ analyzed)))"
      by (intro main_run) simp_all
    with f ne h run show ?thesis
      by simp
  qed
  from e run m show "\<exists>e.
             set_item v (ustr ''rating_distribution'') ?d = Inl e
             \<and> analyze_reviews_with_openai reviews ''Microsoft Teams'' client =
                 (None, [Chat_request ?req, analyze_error e])
             \<and> (\<forall>ui getenv search openai okey skey results.
                   resolve_key (openai_api_key_input ui) (getenv ''OPENAI_API_KEY'') = Some okey
                   \<and> okey \<noteq> []
                   \<and> resolve_key (serpapi_key_input ui) (getenv ''SERPAPI_KEY'') = Some skey
                   \<and> skey \<noteq> []
                   \<and> run_analysis ui
                   \<and> search (teams_query skey) = Inr results
                   \<and> results_reviews results = Some reviews
                   \<and> openai okey = client
                   \<longrightarrow> main ui getenv search openai =
                         (Analysis_failed,
                          [Search_request (teams_query skey), Chat_request ?req, analyze_error e,
                           St_error analysis_failed_error]))"
    by blast
qed

theorem non_object_reply_fails_witness:
  \<open>json_loads (clean_text ''[1, 2]'') = Loaded (JList [JInt 1, JInt 2])
   \<and> \<not> is_dict (JList [JInt 1, JInt 2])
   \<and> parse_reply ''[1, 2]'' = (JList [JInt 1, JInt 2], [])
   \<and> usable_texts scenario_reviews \<noteq> []
   \<and> fst (analyze_reviews_with_openai scenario_reviews ''Microsoft Teams'' (reply_with ''[1, 2]''))
       = None
   \<and> fst (main keys_entered empty_env (search_returning scenario_reviews)
            (openai_replying ''[1, 2]'')) = Analysis_failed\<close>
proof -
  let ?req = "build_request (build_prompt (usable_texts scenario_reviews) ''Microsoft Teams'')"
  have a: \<open>json_loads (clean_text ''[1, 2]'') = Loaded (JList [JInt 1, JInt 2])\<close>
    by code_simp
  have b: "\<not> is_dict (JList [JInt 1, JInt 2])"
    by (simp add: is_dict_def)
  have n: "usable_texts scenario_reviews \<noteq> []"
    by code_simp
  have c: "reply_with ''[1, 2]'' ?req = Inr ''[1, 2]''"
    by (simp add: reply_with_def)
  note t = non_object_reply_fails [OF a b, of scenario_reviews "reply_with ''[1, 2]''"]
  from t have p: "parse_reply ''[1, 2]'' = (JList [JInt 1, JInt 2], [])"
    by (rule conjunct1)
  from t n c obtain e where
    r: "analyze_reviews_with_openai scenario_reviews ''Microsoft Teams'' (reply_with ''[1, 2]'')
          = (None, [Chat_request ?req, analyze_error e])"
    and m: "\<And>ui getenv search openai okey skey results.
       resolve_key (openai_api_key_input ui) (getenv ''OPENAI_API_KEY'') = Some okey
       \<and> okey \<noteq> []
       \<and> resolve_key (serpapi_key_input ui) (getenv ''SERPAPI_KEY'') = Some skey
       \<and> skey \<noteq> []
       \<and> run_analysis ui
       \<and> search (teams_query skey) = Inr results
       \<and> results_reviews results = Some scenario_reviews
       \<and> openai okey = reply_with ''[1, 2]''
       \<Longrightarrow> main ui getenv search openai =
             (Analysis_failed,
              [Search_request (teams_query skey), Chat_request ?req, analyze_error e,
               St_error analysis_failed_error])"
    by blast
  have "main keys_entered empty_env (search_returning scenario_reviews) (openai_replying ''[1, 2]'')
      = (Analysis_failed,
         [Search_request (teams_query ''serp-test''), Chat_request ?req, analyze_error e,
          St_error analysis_failed_error])"
    by (rule m [where okey = "''sk-test''" and results = "\<lparr>results_reviews = Some scenario_reviews\<rparr>"])
      (simp add: resolve_key_def keys_entered_def empty_env_def search_returning_def
        openai_replying_def)
  with a b p n r show ?thesis
    by simp
qed

text \<open>
  Claim C5. A response of the search service without a \<open>reviews\<close> key, and an exception
  raised by the search, both make \<open>fetch_app_store_reviews\<close> return the empty list after
  showing an error; nothing is raised. When the list fetched in a run is empty (also
  when the \<open>reviews\<close> key holds an empty list), \<open>main\<close> shows the fetch error and stops:
  no request is sent to the text-generation service.
\<close>

theorem fetch_failure_halts:
  "(search \<lparr>engine = ''apple_reviews'', product_id = app_id, api_key = key, num = max_reviews\<rparr>
      = Inr results \<and> results_reviews results = None
    \<longrightarrow> fetch_app_store_reviews search app_id key max_reviews =
          ([], [Search_request \<lparr>engine = ''apple_reviews'', product_id = app_id, api_key = key,
                                 num = max_reviews\<rparr>,
                St_error (''No reviews found for app ID: '' @ app_id)]))
   \<and> (search \<lparr>engine = ''apple_reviews'', product_id = app_id, api_key = key, num = max_reviews\<rparr>
      = Inl e
    \<longrightarrow> fetch_app_store_reviews search app_id key max_reviews =
          ([], [Search_request \<lparr>engine = ''apple_reviews'', product_id = app_id, api_key = key,
                                 num = max_reviews\<rparr>,
                St_error (''Error fetching reviews: '' @ e)]))
   \<and> (resolve_key (openai_api_key_input ui) (getenv ''OPENAI_API_KEY'') = Some okey \<and> okey \<noteq> []
      \<and> resolve_key (serpapi_key_input ui) (getenv ''SERPAPI_KEY'') = Some skey \<and> skey \<noteq> []
      \<and> run_analysis ui
      \<and> fst (fetch_app_store_reviews search ''1113153706'' skey 25) = []
    \<longrightarrow> main ui getenv search openai =
          (Fetch_failed,
           snd (fetch_app_store_reviews search ''1113153706'' skey 25) @ [St_error fetch_failed_error])
        \<and> (\<forall>ev \<in> set (snd (main ui getenv search openai)). \<not> chat_call ev))"
proof (intro conjI impI)
  assume "search \<lparr>engine = ''apple_reviews'', product_id = app_id, api_key = key, num = max_reviews\<rparr>
      = Inr results \<and> results_reviews results = None"
  then show "fetch_app_store_reviews search app_id key max_reviews =
          ([], [Search_request \<lparr>engine = ''apple_reviews'', product_id = app_id, api_key = key,
                                 num = max_reviews\<rparr>,
                St_error (''No reviews found for app ID: '' @ app_id)])"
    by (simp add: fetch_app_store_reviews_def)
next
  assume "search \<lparr>engine = ''apple_reviews'', product_id = app_id, api_key = key, num = max_reviews\<rparr>
      = Inl e"
  then show "fetch_app_store_reviews search app_id key max_reviews =
          ([], [Search_request \<lparr>engine = ''apple_reviews'', product_id = app_id, api_key = key,
                                 num = max_reviews\<rparr>,
                St_error (''Error fetching reviews: '' @ e)])"
    by (simp add: fetch_app_store_reviews_def)
next
  assume h: "resolve_key (openai_api_key_input ui) (getenv ''OPENAI_API_KEY'') = Some okey \<and> okey \<noteq> []
      \<and> resolve_key (serpapi_key_input ui) (getenv ''SERPAPI_KEY'') = Some skey \<and> skey \<noteq> []
      \<and> run_analysis ui
      \<and> fst (fetch_app_store_reviews search ''1113153706'' skey 25) = []"
  obtain rs fetched where f: "fetch_app_store_reviews search ''1113153706'' skey 25 = (rs, fetched)"
    by (cases "fetch_app_store_reviews search ''1113153706'' skey 25")
  with h have rs: "rs = []"
    by simp
  from h have "main ui getenv search openai =
     (case fetch_app_store_reviews search ''1113153706'' skey 25 of
        (teams_reviews, fetched) \<Rightarrow>
          if teams_reviews = [] then (Fetch_failed, fetched @ [St_error fetch_failed_error])
          else
            (case analyze_reviews_with_openai teams_reviews ''Microsoft Teams'' (openai okey) of
               (None, analyzed) \<Rightarrow>
                 (Analysis_failed, fetched @ analyzed @ [St_error analysis_failed_error])
             | (Some (teams_analysis, teams_ratings), analyzed) \<Rightarrow>
                 if teams_analysis = JDict []
                 then (Analysis_failed, fetched @ analyzed @ [St_error analysis_failed_error])
                 else (Displayed teams_analysis teams_ratings teams_reviews, fetched @ analyzed)))"
    by (intro main_run) simp_all
  with f rs show m: "main ui getenv search openai =
          (Fetch_failed,
           snd (fetch_app_store_reviews search ''1113153706'' skey 25) @ [St_error fetch_failed_error])"
    by simp
  from fetch_events_no_chat [of search "''1113153706''" skey 25]
  show "\<forall>ev \<in> set (snd (main ui getenv search openai)). \<not> chat_call ev"
    unfolding m by (simp add: chat_call_def)
qed

theorem fetch_failure_halts_witness:
  "fetch_app_store_reviews search_without_reviews ''1113153706'' ''serp-test'' 25
     = ([], [Search_request (teams_query ''serp-test''),
             St_error ''No reviews found for app ID: 1113153706''])
   \<and> fetch_app_store_reviews (search_failing ''Invalid API key'') ''1113153706'' ''serp-test'' 25
     = ([], [Search_request (teams_query ''serp-test''),
             St_error ''Error fetching reviews: Invalid API key''])
   \<and> main keys_entered empty_env search_without_reviews (openai_replying ''{}'')
     = (Fetch_failed,
        [Search_request (teams_query ''serp-test''),
         St_error ''No reviews found for app ID: 1113153706'',
         St_error fetch_failed_error])"
proof -
  have q: "search_without_reviews (teams_query ''serp-test'') = Inr \<lparr>results_reviews = None\<rparr>
      \<and> results_reviews \<lparr>results_reviews = None\<rparr> = None"
    by (simp add: search_without_reviews_def)
  have x: "search_failing ''Invalid API key'' (teams_query ''serp-test'') = Inl ''Invalid API key''"
    by (simp add: search_failing_def)
  note t1 = fetch_failure_halts [of search_without_reviews "''1113153706''" "''serp-test''" 25
      "\<lparr>results_reviews = None\<rparr>" "''Invalid API key''" keys_entered empty_env "''sk-test''"
      "''serp-test''" "openai_replying ''{}''"]
  note t2 = fetch_failure_halts [of "search_failing ''Invalid API key''" "''1113153706''"
      "''serp-test''" 25 "\<lparr>results_reviews = None\<rparr>" "''Invalid API key''" keys_entered
      empty_env "''sk-test''" "''serp-test''" "openai_replying ''{}''"]
  from t1 q have f1: "fetch_app_store_reviews search_without_reviews ''1113153706'' ''serp-test'' 25
     = ([], [Search_request (teams_query ''serp-test''),
             St_error ''No reviews found for app ID: 1113153706''])"
    by (simp add: teams_query_def)
  from t2 x have f2: "fetch_app_store_reviews (search_failing ''Invalid API key'') ''1113153706''
       ''serp-test'' 25
     = ([], [Search_request (teams_query ''serp-test''),
             St_error ''Error fetching reviews: Invalid API key''])"
    by (simp add: teams_query_def)
  have k: "resolve_key (openai_api_key_input keys_entered) (empty_env ''OPENAI_API_KEY'') = Some ''sk-test''
      \<and> ''sk-test'' \<noteq> []
      \<and> resolve_key (serpapi_key_input keys_entered) (empty_env ''SERPAPI_KEY'') = Some ''serp-test''
      \<and> ''serp-test'' \<noteq> []
      \<and> run_analysis keys_entered
      \<and> fst (fetch_app_store_reviews search_without_reviews ''1113153706'' ''serp-test'' 25) = []"
    by (simp add: resolve_key_def keys_entered_def f1)
  from t1 k have m: "main keys_entered empty_env search_without_reviews (openai_replying ''{}'') =
          (Fetch_failed,
           snd (fetch_app_store_reviews search_without_reviews ''1113153706'' ''serp-test'' 25)
             @ [St_error fetch_failed_error])
        \<and> (\<forall>ev \<in> set (snd (main keys_entered empty_env search_without_reviews
                               (openai_replying ''{}''))). \<not> chat_call ev)"
    by blast
  from f1 f2 m show ?thesis
    by simp
qed

text \<open>
  Claim C8. When the generation-service key or the search-service key is neither typed
  in the sidebar nor set (to a non-empty value) in the environment, \<open>main\<close> shows the
  warning and stops: its only event is the warning, so neither service is contacted.
\<close>

theorem missing_key_halts:
  assumes "(openai_api_key_input ui = []
              \<and> (getenv ''OPENAI_API_KEY'' = None \<or> getenv ''OPENAI_API_KEY'' = Some []))
         \<or> (serpapi_key_input ui = []
              \<and> (getenv ''SERPAPI_KEY'' = None \<or> getenv ''SERPAPI_KEY'' = Some []))"
  shows "main ui getenv search openai = (Missing_keys, [St_warning keys_warning])
       \<and> (\<forall>ev \<in> set (snd (main ui getenv search openai)). \<not> network_call ev)"
proof -
  from assms have "main ui getenv search openai = (Missing_keys, [St_warning keys_warning])"
    by (auto simp: main_def resolve_key_def split: option.splits)
  then show ?thesis
    by (simp add: network_call_def)
qed

theorem missing_key_halts_witness:
  "serpapi_key_input \<lparr>openai_api_key_input = ''sk-test'', serpapi_key_input = [],
                       run_analysis = True\<rparr> = []
   \<and> empty_env ''SERPAPI_KEY'' = None
   \<and> main \<lparr>openai_api_key_input = ''sk-test'', serpapi_key_input = [], run_analysis = True\<rparr>
        empty_env (search_returning scenario_reviews) (openai_replying ''{}'')
      = (Missing_keys, [St_warning keys_warning])"
proof -
  let ?ui = "\<lparr>openai_api_key_input = ''sk-test'', serpapi_key_input = [], run_analysis = True\<rparr>"
  have h: "(openai_api_key_input ?ui = []
       \<and> (empty_env ''OPENAI_API_KEY'' = None \<or> empty_env ''OPENAI_API_KEY'' = Some []))
     \<or> (serpapi_key_input ?ui = []
       \<and> (empty_env ''SERPAPI_KEY'' = None \<or> empty_env ''SERPAPI_KEY'' = Some []))"
    by (simp add: empty_env_def)
  have a: "serpapi_key_input ?ui = []"
    by simp
  have b: "empty_env ''SERPAPI_KEY'' = None"
    by (simp add: empty_env_def)
  from missing_key_halts [OF h, of "search_returning scenario_reviews" "openai_replying ''{}''"] a b
  show ?thesis
    by blast
qed

section \<open>The prompt\<close>











section \<open>The scanner and whitespace\<close>

lemma lex_acc_error: "lex_acc (LError, toks) c = (LError, toks)"
  by (simp add: lex_acc_def lex_step_def)

lemma foldl_lex_acc_error: "foldl lex_acc (LError, toks) cs = (LError, toks)"
  by (induction cs) (simp_all add: lex_acc_error)

lemma lex_end_error: "lex_end (LError, toks) = None"
  by (simp add: lex_end_def lex_finish_def)

lemma fst_lex_acc: "fst (lex_acc (st, toks) c) = fst (lex_step st c)"
  by (simp add: lex_acc_def split: prod.splits)

lemma literal_ok_start_step: "literal_ok (fst (start_step c))"
  by (simp add: start_step_def literal_ok_def isspace_def)

lemma literal_ok_lex_step: "literal_ok st \<Longrightarrow> literal_ok (fst (lex_step st c))"
proof (cases st)
  case LStart
  then show ?thesis by (simp add: lex_step_def literal_ok_start_step)
next
  case (LNumber ns lx)
  have "literal_ok (fst (case start_step c of (st', toks) \<Rightarrow> (st', TScalar (number_value ns lx) # toks)))"
    using literal_ok_start_step [of c] by (cases "start_step c") simp
  with LNumber show ?thesis
    by (simp add: lex_step_def literal_ok_def isspace_def split: option.splits)
next
  case (LLiteral rest v)
  assume "literal_ok st"
  with LLiteral show ?thesis
    by (cases rest) (simp_all add: lex_step_def literal_ok_def)
qed (simp_all add: lex_step_def literal_ok_def split: option.splits)

lemma literal_ok_foldl:
  "literal_ok (fst p) \<Longrightarrow> literal_ok (fst (foldl lex_acc p cs))"
proof (induction cs arbitrary: p)
  case Nil
  then show ?case by simp
next
  case (Cons c cs)
  obtain st toks where p: "p = (st, toks)" by (cases p)
  with Cons.prems have "literal_ok (fst (lex_acc p c))"
    by (simp add: fst_lex_acc literal_ok_lex_step)
  from Cons.IH [OF this] show ?case by simp
qed

lemma start_step_backtick: "start_step (CHR 0x60) = (LError, [])"
  by (simp add: start_step_def json_ws_def is_digit_def)

lemma num_next_backtick: "num_next ns (CHR 0x60) = None"
  by (cases ns) (simp_all add: num_next_def is_digit_def)

lemma lex_step_backtick: "literal_ok st \<Longrightarrow> in_string (fst (lex_step st (CHR 0x60)))"
proof (cases st)
  case (LLiteral rest v)
  assume "literal_ok st"
  with LLiteral show ?thesis
    by (cases rest) (auto simp: lex_step_def in_string_def literal_ok_def)
qed (simp_all add: lex_step_def in_string_def start_step_backtick escape_char_def hex_value_def
      num_next_backtick)

lemma lex_finish_in_string: "in_string st \<Longrightarrow> lex_finish st = None"
  by (cases st) (simp_all add: in_string_def lex_finish_def)

lemma lex_ends_backtick: "lex (a @ [CHR 0x60]) = None"
proof -
  obtain st toks where p: "foldl lex_acc (LStart, []) a = (st, toks)"
    by (cases "foldl lex_acc (LStart, []) a")
  have "literal_ok (fst (foldl lex_acc (LStart, []) a))"
    by (rule literal_ok_foldl) (simp add: literal_ok_def)
  with p have ok: "literal_ok st" by simp
  obtain st' toks' where q: "lex_acc (st, toks) (CHR 0x60) = (st', toks')"
    by (cases "lex_acc (st, toks) (CHR 0x60)")
  from q have "st' = fst (lex_step st (CHR 0x60))"
    using fst_lex_acc [of st toks "CHR 0x60"] by simp
  with ok have "in_string st'"
    by (simp add: lex_step_backtick)
  then show ?thesis
    by (simp add: lex_def p q lex_end_def lex_finish_in_string)
qed

lemma lex_starts_backtick: "lex (CHR 0x60 # cs) = None"
  by (simp add: lex_def lex_acc_def lex_step_def start_step_backtick foldl_lex_acc_error lex_end_error)

lemma lex_Nil: "lex [] = Some []"
  by (simp add: lex_def lex_end_def lex_finish_def)

lemma json_loads_Nil: "json_loads [] = JSONDecodeError"
  by (simp add: json_loads_def lex_Nil parse_tokens_def)

lemma char_eq_of_char: "c = d \<longleftrightarrow> (of_char c :: nat) = of_char d"
  by (simp add: of_char_eq_iff)

lemma json_ws_of_char: "json_ws c \<longleftrightarrow> (of_char c :: nat) \<in> {32, 9, 10, 13}"
  by (auto simp: json_ws_def char_eq_of_char [of c])

lemma start_step_space: "isspace c \<Longrightarrow> start_step c = (LStart, []) \<or> start_step c = (LError, [])"
  by (auto simp: start_step_def isspace_def json_ws_of_char is_digit_def Let_def char_eq_of_char [of c])

lemma lex_acc_start_space:
  "isspace c \<Longrightarrow> lex_acc (LStart, []) c = (LStart, []) \<or> lex_acc (LStart, []) c = (LError, [])"
  using start_step_space [of c] by (auto simp: lex_acc_def lex_step_def)

lemma lex_leading_spaces:
  "\<forall>c \<in> set l. isspace c \<Longrightarrow> lex (l @ rest) = lex rest \<or> lex (l @ rest) = None"
proof (induction l)
  case Nil
  then show ?case by simp
next
  case (Cons c l)
  then have sp: "isspace c" and IH: "lex (l @ rest) = lex rest \<or> lex (l @ rest) = None"
    by simp_all
  from lex_acc_start_space [OF sp] show ?case
  proof
    assume "lex_acc (LStart, []) c = (LStart, [])"
    then have "lex ((c # l) @ rest) = lex (l @ rest)"
      by (simp add: lex_def)
    with IH show ?thesis by simp
  next
    assume "lex_acc (LStart, []) c = (LError, [])"
    then have "lex ((c # l) @ rest) = None"
      by (simp add: lex_def foldl_lex_acc_error lex_end_error)
    then show ?thesis by simp
  qed
qed

lemma isspace_not_quote: "isspace c \<Longrightarrow> c \<noteq> CHR 0x22"
  by (auto simp: isspace_def)

lemma in_string_lex_step: "in_string st \<Longrightarrow> c \<noteq> CHR 0x22 \<Longrightarrow> in_string (fst (lex_step st c))"
  by (cases st) (simp_all add: in_string_def lex_step_def escape_char_def split: option.splits)

lemma num_next_space: "isspace c \<Longrightarrow> num_next ns c = None"
  by (cases ns) (auto simp: num_next_def is_digit_def isspace_def Let_def)

lemma lex_end_lex_acc_space:
  assumes "isspace c" and "literal_ok st" and "lex_end (lex_acc (st, toks) c) = Some t"
  shows "lex_end (st, toks) = Some t"
proof (cases st)
  case LStart
  with start_step_space [OF assms(1)] assms(3) show ?thesis
    by (auto simp: lex_acc_def lex_step_def lex_end_def lex_finish_def)
next
  case (LNumber ns lx)
  have i: "c \<noteq> CHR ''I''" using assms(1) by (auto simp: isspace_def)
  from start_step_space [OF assms(1)] assms(3) LNumber i show ?thesis
    by (auto simp: lex_acc_def lex_step_def lex_end_def lex_finish_def num_next_space [OF assms(1)]
        split: if_splits)
next
  case (LLiteral rest v)
  with assms show ?thesis
    by (cases rest) (auto simp: lex_acc_def lex_step_def lex_end_def lex_finish_def literal_ok_def
        split: if_splits)
next
  case LError
  with assms(3) show ?thesis
    by (simp add: lex_acc_error)
next
  case (LString a)
  then have "in_string st" by (simp add: in_string_def)
  from in_string_lex_step [OF this isspace_not_quote [OF assms(1)]] assms(3) show ?thesis
    by (simp add: lex_acc_def lex_end_def lex_finish_in_string split: prod.splits)
next
  case (LEscape a)
  then have "in_string st" by (simp add: in_string_def)
  from in_string_lex_step [OF this isspace_not_quote [OF assms(1)]] assms(3) show ?thesis
    by (simp add: lex_acc_def lex_end_def lex_finish_in_string split: prod.splits)
next
  case (LUnicode a h)
  then have "in_string st" by (simp add: in_string_def)
  from in_string_lex_step [OF this isspace_not_quote [OF assms(1)]] assms(3) show ?thesis
    by (simp add: lex_acc_def lex_end_def lex_finish_in_string split: prod.splits)
qed

lemma lex_end_trailing_spaces:
  "\<forall>c \<in> set r. isspace c \<Longrightarrow> literal_ok (fst p) \<Longrightarrow> lex_end (foldl lex_acc p r) = Some t
     \<Longrightarrow> lex_end p = Some t"
proof (induction r arbitrary: p)
  case Nil
  then show ?case by simp
next
  case (Cons c r)
  obtain st toks where p: "p = (st, toks)" by (cases p)
  from Cons.prems p have ok: "literal_ok (fst (lex_acc p c))"
    by (simp add: fst_lex_acc literal_ok_lex_step)
  from Cons.prems have "lex_end (foldl lex_acc (lex_acc p c) r) = Some t" "\<forall>c \<in> set r. isspace c"
    by simp_all
  from Cons.IH [OF this(2) ok this(1)] have "lex_end (lex_acc p c) = Some t" .
  with Cons.prems p show ?case
    using lex_end_lex_acc_space [of c st toks t] by simp
qed

lemma lex_trailing_spaces:
  assumes "\<forall>c \<in> set r. isspace c" and "lex (m @ r) = Some t"
  shows "lex m = Some t"
proof -
  have "literal_ok (fst (foldl lex_acc (LStart, []) m))"
    by (rule literal_ok_foldl) (simp add: literal_ok_def)
  from lex_end_trailing_spaces [OF assms(1) this, of t] assms(2) show ?thesis
    by (simp add: lex_def)
qed

lemma strip_decompose:
  "\<exists>l r. s = l @ strip s @ r \<and> (\<forall>c \<in> set l. isspace c) \<and> (\<forall>c \<in> set r. isspace c)"
proof -
  let ?l = "takeWhile isspace s"
  let ?m = "lstrip s"
  let ?r = "rev (takeWhile isspace (rev ?m))"
  have 1: "s = ?l @ ?m"
    by (simp add: lstrip_def)
  have "?m = rev (takeWhile isspace (rev ?m) @ dropWhile isspace (rev ?m))"
    by (simp only: takeWhile_dropWhile_id rev_rev_ident)
  also have "\<dots> = rev (dropWhile isspace (rev ?m)) @ ?r"
    by (simp only: rev_append)
  finally have 2: "?m = strip s @ ?r"
    by (simp only: strip_def rstrip_def)
  have 3: "\<forall>c \<in> set ?l. isspace c"
    by (auto dest: set_takeWhileD)
  have 4: "\<forall>c \<in> set ?r. isspace c"
    by (auto dest: set_takeWhileD)
  from 1 2 have "s = ?l @ strip s @ ?r"
    by simp
  with 3 4 show ?thesis
    by blast
qed

lemma lex_strip: "lex s = Some t \<Longrightarrow> lex (strip s) = Some t"
proof -
  assume a: "lex s = Some t"
  from strip_decompose [of s] obtain l r where
    d: "s = l @ strip s @ r" and l: "\<forall>c \<in> set l. isspace c" and r: "\<forall>c \<in> set r. isspace c"
    by blast
  from lex_leading_spaces [OF l, of "strip s @ r"] a d have "lex (strip s @ r) = Some t"
    by auto
  from lex_trailing_spaces [OF r this] show ?thesis .
qed

lemma json_loads_strip: "json_loads s = Loaded v \<Longrightarrow> json_loads (strip s) = Loaded v"
  by (auto simp: json_loads_def lex_strip split: option.splits)

lemma json_loads_shape:
  assumes "json_loads s = Loaded v"
  shows "s \<noteq> [] \<and> hd s \<noteq> CHR 0x60 \<and> last s \<noteq> CHR 0x60"
proof (intro conjI)
  from assms show ne: "s \<noteq> []"
    using json_loads_Nil by auto
  show "hd s \<noteq> CHR 0x60"
  proof
    assume "hd s = CHR 0x60"
    with ne have "s = CHR 0x60 # tl s" by (cases s) simp_all
    then have "lex s = None" using lex_starts_backtick [of "tl s"] by simp
    with assms show False by (simp add: json_loads_def)
  qed
  show "last s \<noteq> CHR 0x60"
  proof
    assume "last s = CHR 0x60"
    with ne have "s = butlast s @ [CHR 0x60]" by (metis append_butlast_last_id)
    then have "lex s = None" using lex_ends_backtick [of "butlast s"] by simp
    with assms show False by (simp add: json_loads_def)
  qed
qed

section \<open>Stripping and the code fences\<close>

lemma dropWhile_all: "\<forall>c \<in> set w. P c \<Longrightarrow> dropWhile P (w @ s) = dropWhile P s"
  by (induction w) simp_all

lemma dropWhile_all_rev: "\<forall>c \<in> set w. P c \<Longrightarrow> dropWhile P (rev w @ s) = dropWhile P s"
  by (rule dropWhile_all) simp

lemma dropWhile_all_Nil: "\<forall>c \<in> set w. P c \<Longrightarrow> dropWhile P w = []"
  by (induction w) simp_all

lemma lstrip_spaces: "\<forall>c \<in> set w. isspace c \<Longrightarrow> lstrip (w @ s) = lstrip s"
  by (simp add: lstrip_def dropWhile_all)

lemma lstrip_nonspace: "s \<noteq> [] \<Longrightarrow> \<not> isspace (hd s) \<Longrightarrow> lstrip (s @ b) = s @ b"
  by (cases s) (simp_all add: lstrip_def)

lemma rstrip_spaces: "\<forall>c \<in> set w. isspace c \<Longrightarrow> rstrip (s @ w) = rstrip s"
  by (simp add: rstrip_def dropWhile_all_rev)

lemma rstrip_append: "s \<noteq> [] \<Longrightarrow> \<not> isspace (last s) \<Longrightarrow> rstrip (b @ s) = b @ s"
proof -
  assume a: "s \<noteq> []" "\<not> isspace (last s)"
  then have "rev s \<noteq> []" "\<not> isspace (hd (rev s))"
    by (simp_all add: hd_rev)
  then have "dropWhile isspace (rev s @ rev b) = rev s @ rev b"
    by (cases "rev s") simp_all
  then show ?thesis
    by (simp add: rstrip_def)
qed

lemma rstrip_nonspace: "s \<noteq> [] \<Longrightarrow> \<not> isspace (last s) \<Longrightarrow> rstrip s = s"
  using rstrip_append [of s "[]"] by simp

lemma rstrip_after: "s \<noteq> [] \<Longrightarrow> \<not> isspace (last s) \<Longrightarrow> rstrip (s @ b) = s @ rstrip b"
proof -
  assume a: "s \<noteq> []" "\<not> isspace (last s)"
  then have h: "rev s \<noteq> []" "\<not> isspace (hd (rev s))"
    by (simp_all add: hd_rev)
  then have d: "dropWhile isspace (rev s) = rev s"
    by (cases "rev s") simp_all
  show ?thesis
  proof (cases "\<forall>c \<in> set (rev b). isspace c")
    case True
    then have "\<forall>c \<in> set b. isspace c" by simp
    then have "dropWhile isspace (rev b @ rev s) = rev s" "dropWhile isspace (rev b) = []"
      by (simp_all add: dropWhile_all_rev dropWhile_all_Nil d)
    then show ?thesis by (simp add: rstrip_def)
  next
    case False
    then obtain x where "x \<in> set (rev b)" "\<not> isspace x" by blast
    then have "dropWhile isspace (rev b @ rev s) = dropWhile isspace (rev b) @ rev s"
      by (rule dropWhile_append1)
    then show ?thesis by (simp add: rstrip_def)
  qed
qed

lemma lstrip_before: "s \<noteq> [] \<Longrightarrow> \<not> isspace (hd s) \<Longrightarrow> lstrip (b @ s) = lstrip b @ s"
proof -
  assume a: "s \<noteq> []" "\<not> isspace (hd s)"
  then have d: "dropWhile isspace s = s"
    by (cases s) simp_all
  show ?thesis
  proof (cases "\<forall>c \<in> set b. isspace c")
    case True
    then have "dropWhile isspace (b @ s) = s" "dropWhile isspace b = []"
      by (simp_all add: dropWhile_all dropWhile_all_Nil d)
    then show ?thesis by (simp add: lstrip_def)
  next
    case False
    then obtain x where "x \<in> set b" "\<not> isspace x" by blast
    then have "dropWhile isspace (b @ s) = dropWhile isspace b @ s"
      by (rule dropWhile_append1)
    then show ?thesis by (simp add: lstrip_def)
  qed
qed

lemma strip_nonspace: "s \<noteq> [] \<Longrightarrow> \<not> isspace (hd s) \<Longrightarrow> \<not> isspace (last s) \<Longrightarrow> strip s = s"
  using lstrip_nonspace [of s "[]"] rstrip_nonspace [of s] by (simp add: strip_def)

lemma strip_spaces_left: "\<forall>c \<in> set w. isspace c \<Longrightarrow> strip (w @ s) = strip s"
  by (simp add: strip_def lstrip_spaces)

lemma strip_spaces_right: "\<forall>c \<in> set w. isspace c \<Longrightarrow> strip (s @ w) = strip s"
proof (cases "\<forall>c \<in> set s. isspace c")
  case True
  assume "\<forall>c \<in> set w. isspace c"
  with True have "lstrip (s @ w) = []" "lstrip s = []"
    by (simp_all add: lstrip_def dropWhile_all_Nil)
  then show ?thesis by (simp add: strip_def)
next
  case False
  assume w: "\<forall>c \<in> set w. isspace c"
  from False obtain x where "x \<in> set s" "\<not> isspace x" by blast
  then have "dropWhile isspace (s @ w) = dropWhile isspace s @ w"
    by (rule dropWhile_append1)
  with w show ?thesis by (simp add: strip_def lstrip_def rstrip_spaces)
qed

lemma not_space_fence: "\<not> isspace (CHR 0x60)" "\<not> isspace (CHR ''n'')"
  by (simp_all add: isspace_def)

lemma strip_closing_fence_append: "strip_closing_fence (s @ ''```'') = s"
  by (simp add: strip_closing_fence_def suffix_def)

lemma strip_ends:
  assumes "strip s \<noteq> []"
  shows "\<not> isspace (hd (strip s)) \<and> \<not> isspace (last (strip s))"
proof
  let ?m = "lstrip s"
  have "?m = rev (takeWhile isspace (rev ?m) @ dropWhile isspace (rev ?m))"
    by (simp only: takeWhile_dropWhile_id rev_rev_ident)
  also have "\<dots> = rev (dropWhile isspace (rev ?m)) @ rev (takeWhile isspace (rev ?m))"
    by (simp only: rev_append)
  finally have d: "?m = strip s @ rev (takeWhile isspace (rev ?m))"
    by (simp only: strip_def rstrip_def)
  with assms have ne: "?m \<noteq> []"
    by auto
  from d assms have "hd ?m = hd (strip s)"
    by (metis hd_append2)
  moreover from ne have "\<not> isspace (hd ?m)"
    unfolding lstrip_def by (rule hd_dropWhile)
  ultimately show "\<not> isspace (hd (strip s))"
    by simp
  from assms have n: "dropWhile isspace (rev ?m) \<noteq> []"
    by (simp add: strip_def rstrip_def)
  then have "\<not> isspace (hd (dropWhile isspace (rev ?m)))"
    by (rule hd_dropWhile)
  with n show "\<not> isspace (last (strip s))"
    by (simp add: strip_def rstrip_def last_rev)
qed

lemma strip_strip: "strip (strip s) = strip s"
proof (cases "strip s = []")
  case True
  have "strip [] = []"
    by (simp add: strip_def lstrip_def rstrip_def)
  with True show ?thesis
    by (simp only:)
next
  case False
  from strip_ends [OF False] False show ?thesis
    by (simp add: strip_nonspace)
qed

lemma strip_opening_fence_append: "strip_opening_fence (''```json'' @ s) = s"
  by (simp add: strip_opening_fence_def)

lemma clean_text_loaded:
  assumes "json_loads s = Loaded v"
  shows "clean_text s = strip s \<and> json_loads (clean_text s) = Loaded v"
proof -
  let ?m = "strip s"
  from json_loads_strip [OF assms] have m: "json_loads ?m = Loaded v" .
  from json_loads_shape [OF m] have ne: "?m \<noteq> []" and h: "hd ?m \<noteq> CHR 0x60" and l: "last ?m \<noteq> CHR 0x60"
    by simp_all
  from ne h have "\<not> prefix ''```json'' ?m"
    by (cases ?m) simp_all
  then have o: "strip_opening_fence ?m = ?m"
    by (simp add: strip_opening_fence_def)
  from ne l have "\<not> suffix ''```'' ?m"
    by (auto simp: suffix_def)
  then have c: "strip_closing_fence ?m = ?m"
    by (simp add: strip_closing_fence_def)
  have i: "strip ?m = ?m"
    by (rule strip_strip)
  show ?thesis
    by (simp add: clean_text_def o c i m)
qed

text \<open>
  Claim C4. For a text \<open>J\<close> that decodes as JSON, the reply made of \<open>J\<close> between a
  leading \<open>```json\<close> and a trailing \<open>```\<close> is cleaned to the same text and parsed to the
  same object as the unwrapped \<open>J\<close>, and that object is the value \<open>J\<close> decodes to,
  with no warning. Whitespace around the fences and between the fences and \<open>J\<close> (such
  as the usual line breaks) changes nothing.
\<close>

theorem fenced_reply_parses_alike:
  assumes "json_loads J = Loaded v"
    and "\<forall>c \<in> set w1. isspace c" and "\<forall>c \<in> set w2. isspace c"
    and "\<forall>c \<in> set w3. isspace c" and "\<forall>c \<in> set w4. isspace c"
  shows "clean_text (w1 @ ''```json'' @ w2 @ J @ w3 @ ''```'' @ w4) = clean_text J
    \<and> parse_reply (w1 @ ''```json'' @ w2 @ J @ w3 @ ''```'' @ w4) = parse_reply J
    \<and> parse_reply J = (v, [])"
proof -
  let ?inner = "w2 @ J @ w3"
  let ?t = "w1 @ ''```json'' @ w2 @ J @ w3 @ ''```'' @ w4"
  have "strip ?t = strip ((''```json'' @ ?inner @ ''```'') @ w4)"
    using strip_spaces_left [OF assms(2)] by simp
  also have "\<dots> = strip (''```json'' @ ?inner @ ''```'')"
    by (rule strip_spaces_right [OF assms(5)])
  also have "\<dots> = ''```json'' @ ?inner @ ''```''"
    by (rule strip_nonspace) (simp_all add: not_space_fence)
  finally have 1: "strip ?t = ''```json'' @ ?inner @ ''```''" .
  have 2: "strip_closing_fence (strip_opening_fence (strip ?t)) = ?inner"
    unfolding 1 strip_opening_fence_append by (rule strip_closing_fence_append)
  have "strip ?inner = strip (J @ w3)"
    by (rule strip_spaces_left [OF assms(3)])
  also have "\<dots> = strip J"
    by (rule strip_spaces_right [OF assms(4)])
  finally have 3: "clean_text ?t = strip J"
    by (simp only: clean_text_def 2)
  note l = clean_text_loaded [OF assms(1)]
  have 4: "clean_text J = strip J"
    by (rule conjunct1 [OF l])
  have 5: "json_loads (clean_text J) = Loaded v"
    by (rule conjunct2 [OF l])
  from 3 4 have c: "clean_text ?t = clean_text J"
    by simp
  then have "parse_reply ?t = parse_reply J"
    by (simp only: parse_reply_def)
  moreover from 5 have "parse_reply J = (v, [])"
    by (simp add: parse_reply_def)
  ultimately show ?thesis using c by blast
qed

theorem fenced_reply_parses_alike_witness:
  \<open>json_loads ''{"a": 1}'' = Loaded (JDict [(ustr ''a'', JInt 1)])
   \<and> isspace (CHR ''\<newline>'')
   \<and> parse_reply (''```json'' @ ''\<newline>'' @ ''{"a": 1}'' @ ''\<newline>'' @ ''```'')
       = parse_reply ''{"a": 1}''
   \<and> parse_reply ''{"a": 1}'' = (JDict [(ustr ''a'', JInt 1)], [])\<close>
proof -
  have h: \<open>json_loads ''{"a": 1}'' = Loaded (JDict [(ustr ''a'', JInt 1)])\<close>
    by code_simp
  have e: "\<forall>c \<in> set []. isspace c"
    by simp
  have n: "\<forall>c \<in> set ''\<newline>''. isspace c"
    by (simp add: isspace_def)
  from fenced_reply_parses_alike [OF h e n n e] h n show ?thesis
    by simp
qed

lemma prefix_before_fence:
  assumes "prefix p (x @ ''```'')" and "p \<noteq> []" and "last p \<noteq> CHR 0x60"
  shows "prefix p x"
proof -
  from assms(1) have "prefix p x \<or> (\<exists>us. p = x @ us \<and> prefix us ''```'')"
    by (simp only: prefix_append)
  then show ?thesis
  proof
    assume "prefix p x" then show ?thesis .
  next
    assume "\<exists>us. p = x @ us \<and> prefix us ''```''"
    then obtain us where us: "p = x @ us" "prefix us ''```''" by blast
    show ?thesis
    proof (cases "us = []")
      case True
      with us show ?thesis by simp
    next
      case False
      with us have "last p = last us" by simp
      moreover from False have "last us \<in> set us" by simp
      moreover from us(2) have "set us \<subseteq> set ''```''" by (rule set_mono_prefix)
      ultimately have "last p = CHR 0x60" by auto
      with assms(3) show ?thesis by simp
    qed
  qed
qed

lemma rstrip_decompose: "\<exists>r. s = rstrip s @ r \<and> (\<forall>c \<in> set r. isspace c)"
proof -
  have "s = rev (takeWhile isspace (rev s) @ dropWhile isspace (rev s))"
    by (simp only: takeWhile_dropWhile_id rev_rev_ident)
  also have "\<dots> = rev (dropWhile isspace (rev s)) @ rev (takeWhile isspace (rev s))"
    by (simp only: rev_append)
  finally have "s = rstrip s @ rev (takeWhile isspace (rev s))"
    by (simp only: rstrip_def)
  moreover have "\<forall>c \<in> set (rev (takeWhile isspace (rev s))). isspace c"
    by (auto dest: set_takeWhileD)
  ultimately show ?thesis by blast
qed

lemma strip_rstrip: "strip (rstrip s) = strip s"
proof -
  from rstrip_decompose [of s] obtain r where r: "s = rstrip s @ r" "\<forall>c \<in> set r. isspace c"
    by blast
  from strip_spaces_right [OF r(2), of "rstrip s"] r(1) show ?thesis
    by simp
qed

lemma strip_lstrip: "strip (lstrip s) = strip s"
  by (simp add: strip_def lstrip_def)

lemma json_loads_backtick: "json_loads (CHR 0x60 # cs) = JSONDecodeError"
  by (simp add: json_loads_def lex_starts_backtick)

text \<open>
  Claim C9. The opening fence removed is exactly \<open>```json\<close> and the closing fence exactly
  \<open>```\<close>, each independently of the other. A reply between plain \<open>```\<close> fences, whose
  body does not start with \<open>json\<close>, keeps its opening fence and loses only the closing
  one; the cleaned text starts with a backquote, does not decode, and the fallback
  object is used with the warning. A reply with only the opening fence \<open>```json\<close>, and
  a reply with only the closing fence, have that fence removed and are cleaned to the
  stripped body.
\<close>

theorem fence_stripping_exact:
  "(\<not> prefix ''json'' body \<longrightarrow>
      clean_text (''```'' @ body @ ''```'') = ''```'' @ rstrip body
      \<and> json_loads (clean_text (''```'' @ body @ ''```'')) = JSONDecodeError
      \<and> parse_reply (''```'' @ body @ ''```'') = (fallback_analysis, [St_warning formatting_warning]))
   \<and> (\<not> suffix ''```'' (rstrip body) \<longrightarrow> clean_text (''```json'' @ body) = strip body)
   \<and> (\<not> prefix ''```json'' (lstrip body) \<longrightarrow> clean_text (body @ ''```'') = strip body)"
proof (intro conjI impI)
  assume a: "\<not> prefix ''json'' body"
  let ?t = "''```'' @ body @ ''```''"
  have 1: "strip ?t = ?t"
    by (rule strip_nonspace) (simp_all add: not_space_fence)
  have "\<not> prefix ''json'' (body @ ''```'')"
    using a prefix_before_fence [of "''json''" body] by auto
  then have "\<not> prefix (''```'' @ ''json'') (''```'' @ body @ ''```'')"
    by simp
  then have 2: "strip_opening_fence ?t = ?t"
    by (simp add: strip_opening_fence_def)
  have 3: "strip_closing_fence ?t = ''```'' @ body"
    using strip_closing_fence_append [of "''```'' @ body"] by simp
  have "strip (''```'' @ body) = rstrip (''```'' @ body)"
    using lstrip_nonspace [of "''```''" body] by (simp add: strip_def not_space_fence)
  also have "\<dots> = ''```'' @ rstrip body"
    by (rule rstrip_after) (simp_all add: not_space_fence)
  finally have 4: "strip (''```'' @ body) = ''```'' @ rstrip body" .
  show c: "clean_text ?t = ''```'' @ rstrip body"
    by (simp only: clean_text_def 1 2 3 4)
  show j: "json_loads (clean_text ?t) = JSONDecodeError"
    unfolding c by (simp add: json_loads_backtick)
  show "parse_reply ?t = (fallback_analysis, [St_warning formatting_warning])"
    unfolding parse_reply_def j by simp
next
  assume a: "\<not> suffix ''```'' (rstrip body)"
  let ?t = "''```json'' @ body"
  have "strip ?t = rstrip ?t"
    using lstrip_nonspace [of "''```json''" body] by (simp add: strip_def not_space_fence)
  also have "\<dots> = ''```json'' @ rstrip body"
    by (rule rstrip_after) (simp_all add: not_space_fence)
  finally have 1: "strip ?t = ''```json'' @ rstrip body" .
  have 2: "strip_closing_fence (rstrip body) = rstrip body"
    using a by (simp add: strip_closing_fence_def)
  show "clean_text ?t = strip body"
    by (simp only: clean_text_def 1 strip_opening_fence_append 2 strip_rstrip)
next
  assume a: "\<not> prefix ''```json'' (lstrip body)"
  let ?t = "body @ ''```''"
  have "lstrip ?t = lstrip body @ ''```''"
    by (rule lstrip_before) (simp_all add: not_space_fence)
  moreover have "rstrip (lstrip body @ ''```'') = lstrip body @ ''```''"
    by (rule rstrip_append) (simp_all add: not_space_fence)
  ultimately have 1: "strip ?t = lstrip body @ ''```''"
    by (simp add: strip_def)
  have "\<not> prefix ''```json'' (lstrip body @ ''```'')"
    using a prefix_before_fence [of "''```json''" "lstrip body"] by auto
  then have 2: "strip_opening_fence (lstrip body @ ''```'') = lstrip body @ ''```''"
    by (simp add: strip_opening_fence_def)
  show "clean_text ?t = strip body"
    by (simp only: clean_text_def 1 2 strip_closing_fence_append strip_lstrip)
qed

theorem fence_stripping_exact_witness:
  \<open>\<not> prefix ''json'' ''\<newline>{"a": 1}\<newline>''
   \<and> clean_text (''```'' @ ''\<newline>{"a": 1}\<newline>'' @ ''```'') = ''```\<newline>{"a": 1}''
   \<and> parse_reply (''```'' @ ''\<newline>{"a": 1}\<newline>'' @ ''```'')
       = (fallback_analysis, [St_warning formatting_warning])
   \<and> \<not> suffix ''```'' (rstrip ''\<newline>{"a": 1}\<newline>'')
   \<and> clean_text (''```json'' @ ''\<newline>{"a": 1}\<newline>'') = ''{"a": 1}''
   \<and> \<not> prefix ''```json'' (lstrip ''\<newline>{"a": 1}\<newline>'')
   \<and> clean_text (''\<newline>{"a": 1}\<newline>'' @ ''```'') = ''{"a": 1}''\<close>
proof -
  let ?body = \<open>''\<newline>{"a": 1}\<newline>''\<close>
  note t = fence_stripping_exact [of ?body]
  have r: \<open>rstrip ?body = ''\<newline>{"a": 1}''\<close>
    by code_simp
  have l: \<open>lstrip ?body = ''{"a": 1}\<newline>''\<close>
    by code_simp
  have s: \<open>strip ?body = ''{"a": 1}''\<close>
    by code_simp
  have h1: "\<not> prefix ''json'' ?body"
    by simp
  have h2: "\<not> suffix ''```'' (rstrip ?body)"
    unfolding r by (simp add: suffix_def)
  have h3: "\<not> prefix ''```json'' (lstrip ?body)"
    unfolding l by simp
  from t h1 have c1: "clean_text (''```'' @ ?body @ ''```'') = ''```'' @ rstrip ?body"
    and p1: "parse_reply (''```'' @ ?body @ ''```'') = (fallback_analysis, [St_warning formatting_warning])"
    by blast+
  from t h2 have c2: "clean_text (''```json'' @ ?body) = strip ?body"
    by blast
  from t h3 have c3: "clean_text (?body @ ''```'') = strip ?body"
    by blast
  from h1 h2 h3 c1 p1 c2 c3 show ?thesis
    unfolding r s by simp
qed

end
